theory Spec2Isabelle
  imports Complex_Main
begin

section \<open>The raster editing engine of \<open>ImageEditor.tsx\<close>\<close>

text \<open>
  The component keeps its state in React state cells (\<open>editMode\<close>, \<open>brushSettings\<close>,
  \<open>history\<close>, \<open>historyIndex\<close>, \<open>cropRect\<close>, \<open>cropAction\<close>) and in refs (\<open>canvasRef\<close>,
  \<open>originalImageRef\<close>, \<open>isDrawing\<close>, \<open>lastPoint\<close>).  Every event handler is modelled as a
  function from the state the handler's render saw to the state after the handler, with the
  exception it raised, if any.

  JavaScript numbers are modelled as exact reals: the handlers only add, subtract, halve,
  negate and compare coordinates, and on the integers of the examples double arithmetic
  is exact.  The canvas is a grid of RGBA cells with channels from 0 to 255.  What the
  handlers ask of the 2D context (\<open>getImageData\<close>, \<open>putImageData\<close>, resizing, compositing)
  follows the HTML canvas standard; what depends on the rasteriser (which cells a stroke,
  a clip or the overlay touches, and by how much) is a parameter.  The attributes a handler
  sets on the context right before it draws (\<open>lineWidth\<close>, \<open>lineCap\<close>,
  \<open>globalCompositeOperation\<close>, the path) are arguments of the drawing step, not state.
\<close>

subsection \<open>Data\<close>

datatype EditMode = Erase | Restore | Crop

datatype error = IndexSizeError | TypeError

record rgba =
  red :: nat
  green :: nat
  blue :: nat
  alpha :: nat

definition transparent :: rgba where
  "transparent = \<lparr>red = 0, green = 0, blue = 0, alpha = 0\<rparr>"

text \<open>An \<open>ImageData\<close>: \<open>width\<close>, \<open>height\<close> and the pixels in row-major order.  The bitmap
  of the canvas and the decoded original image are pixel grids of the same shape.\<close>

record imagedata =
  width :: nat
  height :: nat
  data :: "rgba list"

text \<open>\<open>type CropRect = { x; y; width; height }\<close>\<close>

record CropRect =
  rx :: real
  ry :: real
  rwidth :: real
  rheight :: real

text \<open>A pointer position \<open>{ x, y }\<close> in canvas coordinates, as \<open>getMousePos\<close> returns it.\<close>

record point =
  px :: real
  py :: real

datatype ActionType = drawing | moving | resizing

record CropAction =
  atype :: ActionType
  handle :: "string option"
  startX :: real
  startY :: real
  startRect :: "CropRect option"

record session =
  editMode :: EditMode
  brushSize :: nat
  history :: "imagedata list"
  historyIndex :: int
  cropRect :: "CropRect option"
  cropAction :: "CropAction option"
  canvas :: "imagedata option"
  originalImage :: "imagedata option"
  isDrawing :: bool
  lastPoint :: "point option"

text \<open>\<open>canvas s = None\<close> stands for \<open>canvasRef.current\<close> being null or having no 2D context,
  the case every handler guards with \<open>if (!canvas || !ctx) return\<close>.  A handler returns the
  exception it raised (\<open>None\<close> when it returned normally) and the state it left behind.\<close>

type_synonym outcome = "error option \<times> session"

definition HANDLE_SIZE :: real where
  "HANDLE_SIZE = 10"

subsection \<open>Rendering done by the browser\<close>

text \<open>
  A cell of the model's canvas holds the value \<open>getImageData\<close> reads from it.  Five
  steps are carried out by the browser's bitmap store, rasteriser and image codec.  They
  are parameters of the model, each given cell by cell (\<open>i\<close> the column, \<open>j\<close> the row),
  since drawing never changes the size of a canvas:
  \<^item> \<open>storedPixel p\<close>: what a cell reads back after \<open>putImageData\<close> or \<open>drawImage\<close> has
    written the pixel \<open>p\<close> to it.  The bitmap keeps colours premultiplied by alpha, so a
    pixel that is not opaque may read back with other colour values;
  \<^item> \<open>strokeCoverage x0 y0 x1 y1 lineWidth i j\<close>: how much of the cell the round-capped
    line from \<open>(x0, y0)\<close> to \<open>(x1, y1)\<close> covers, from 0 to 255 (anti-aliasing gives the
    values in between);
  \<^item> \<open>restoredPixel orig x0 y0 x1 y1 c i j\<close>: the cell of the canvas \<open>c\<close> after
    \<open>ctx.clip()\<close> on the current path and
    \<open>ctx.drawImage(orig, 0, 0, canvas.width, canvas.height)\<close>;
  \<^item> \<open>croppedOriginalPixel orig r i j\<close>: the cell of the image decoded from the data URL
    of the temporary canvas on which \<open>handleApplyCrop\<close> draws the part \<open>r\<close> of the
    original;
  \<^item> \<open>overlayPixel r c i j\<close>: the cell of the canvas \<open>c\<close> after
    \<open>drawCropOverlay(ctx, r)\<close>.
\<close>

record platform =
  storedPixel :: "rgba \<Rightarrow> rgba"
  strokeCoverage :: "real \<Rightarrow> real \<Rightarrow> real \<Rightarrow> real \<Rightarrow> nat \<Rightarrow> nat \<Rightarrow> nat \<Rightarrow> nat"
  restoredPixel :: "imagedata \<Rightarrow> real \<Rightarrow> real \<Rightarrow> real \<Rightarrow> real \<Rightarrow> imagedata \<Rightarrow> nat \<Rightarrow> nat \<Rightarrow> rgba"
  croppedOriginalPixel :: "imagedata \<Rightarrow> CropRect \<Rightarrow> nat \<Rightarrow> nat \<Rightarrow> rgba"
  overlayPixel :: "CropRect \<Rightarrow> imagedata \<Rightarrow> nat \<Rightarrow> nat \<Rightarrow> rgba"

subsection \<open>The canvas operations the handlers call\<close>

text \<open>A bitmap is well formed when it has one pixel per cell and no empty side, as every
  bitmap the browser hands out has.\<close>

definition wf_image :: "imagedata \<Rightarrow> bool" where
  "wf_image img \<longleftrightarrow>
     0 < width img \<and> 0 < height img \<and> length (data img) = width img * height img"

definition pixel_at :: "imagedata \<Rightarrow> int \<Rightarrow> int \<Rightarrow> rgba" where
  "pixel_at img i j =
     (if 0 \<le> i \<and> i < int (width img) \<and> 0 \<le> j \<and> j < int (height img)
         \<and> nat j * width img + nat i < length (data img)
      then data img ! (nat j * width img + nat i)
      else transparent)"

text \<open>\<open>ctx.getImageData(sx, sy, sw, sh)\<close> on integer arguments: an \<open>IndexSizeError\<close> when
  \<open>sw\<close> or \<open>sh\<close> is zero; otherwise the pixels of the source rectangle, transparent black
  for every cell outside the canvas.  A negative extent names the rectangle on the other
  side of the origin.\<close>

definition getImageData :: "imagedata \<Rightarrow> int \<Rightarrow> int \<Rightarrow> int \<Rightarrow> int \<Rightarrow> error + imagedata" where
  "getImageData c sx sy sw sh =
     (if sw = 0 \<or> sh = 0 then Inl IndexSizeError
      else
        let x0 = (if sw < 0 then sx + sw else sx);
            y0 = (if sh < 0 then sy + sh else sy);
            w = nat \<bar>sw\<bar>;
            h = nat \<bar>sh\<bar>
        in Inr \<lparr>width = w, height = h,
                data = map (\<lambda>k. pixel_at c (x0 + int (k mod w)) (y0 + int (k div w)))
                         [0..<w * h]\<rparr>)"

text \<open>Assigning \<open>canvas.width\<close> and \<open>canvas.height\<close> clears the bitmap to transparent
  black at the new size.\<close>

definition blank :: "nat \<Rightarrow> nat \<Rightarrow> imagedata" where
  "blank w h = \<lparr>width = w, height = h, data = replicate (w * h) transparent\<rparr>"

text \<open>\<open>ctx.putImageData(img, 0, 0)\<close>: the cells of the canvas that \<open>img\<close> covers take
  its pixels, as the bitmap stores them; the others keep theirs.\<close>

definition putImageData :: "platform \<Rightarrow> imagedata \<Rightarrow> imagedata \<Rightarrow> imagedata" where
  "putImageData P img c =
     c\<lparr>data := map (\<lambda>k. let i = k mod width c; j = k div width c
                        in if i < width img \<and> j < height img
                              \<and> j * width img + i < length (data img)
                           then storedPixel P (data img ! (j * width img + i))
                           else pixel_at c (int i) (int j))
                  [0..<width c * height c]\<rparr>"

text \<open>The bitmap \<open>img\<close> as a canvas of its size holds it: every pixel through the store.\<close>

definition onCanvas :: "platform \<Rightarrow> imagedata \<Rightarrow> imagedata" where
  "onCanvas P img = img\<lparr>data := map (storedPixel P) (data img)\<rparr>"

text \<open>\<open>xs[i]\<close> of a JavaScript array is \<open>undefined\<close> out of range; \<open>xs.slice(0, e)\<close> counts
  a negative \<open>e\<close> from the end.\<close>

definition js_index :: "'a list \<Rightarrow> int \<Rightarrow> 'a option" where
  "js_index xs i = (if 0 \<le> i \<and> i < int (length xs) then Some (xs ! nat i) else None)"

definition slice0 :: "'a list \<Rightarrow> int \<Rightarrow> 'a list" where
  "slice0 xs e = take (nat (if e < 0 then int (length xs) + e else e)) xs"

subsection \<open>History\<close>

definition saveToHistory :: "session \<Rightarrow> outcome" where
  "saveToHistory s =
     (case canvas s of
        None \<Rightarrow> (None, s)
      | Some c \<Rightarrow>
          (case getImageData c 0 0 (int (width c)) (int (height c)) of
             Inl e \<Rightarrow> (Some e, s)
           | Inr currentImageData \<Rightarrow>
               let newHistory = slice0 (history s) (historyIndex s + 1) @ [currentImageData]
               in (None, s\<lparr>history := newHistory,
                            historyIndex := int (length newHistory) - 1\<rparr>)))"

text \<open>\<open>restoreCanvasState\<close> reads \<open>imageData.width\<close> after the canvas guard, so an
  \<open>undefined\<close> argument raises a \<open>TypeError\<close> only when there is a canvas.\<close>

definition restoreCanvasState :: "platform \<Rightarrow> imagedata option \<Rightarrow> session \<Rightarrow> outcome" where
  "restoreCanvasState P imageData s =
     (case canvas s of
        None \<Rightarrow> (None, s)
      | Some c \<Rightarrow>
          (case imageData of
             None \<Rightarrow> (Some TypeError, s)
           | Some img \<Rightarrow>
               (None, s\<lparr>canvas := Some (putImageData P img (blank (width img) (height img)))\<rparr>)))"

definition handleUndo :: "platform \<Rightarrow> session \<Rightarrow> outcome" where
  "handleUndo P s =
     (if historyIndex s > 0 then
        let newIndex = historyIndex s - 1
        in restoreCanvasState P (js_index (history s) newIndex) (s\<lparr>historyIndex := newIndex\<rparr>)
      else (None, s))"

definition handleRedo :: "platform \<Rightarrow> session \<Rightarrow> outcome" where
  "handleRedo P s =
     (if historyIndex s < int (length (history s)) - 1 then
        let newIndex = historyIndex s + 1
        in restoreCanvasState P (js_index (history s) newIndex) (s\<lparr>historyIndex := newIndex\<rparr>)
      else (None, s))"

definition canUndo :: "session \<Rightarrow> bool" where
  "canUndo s \<longleftrightarrow> historyIndex s > 0"

definition canRedo :: "session \<Rightarrow> bool" where
  "canRedo s \<longleftrightarrow> historyIndex s < int (length (history s)) - 1"

subsection \<open>Compositing and repainting\<close>

definition repaint :: "(nat \<Rightarrow> nat \<Rightarrow> rgba) \<Rightarrow> imagedata \<Rightarrow> imagedata" where
  "repaint f c = c\<lparr>data := map (\<lambda>k. f (k mod width c) (k div width c)) [0..<length (data c)]\<rparr>"

text \<open>Compositing one cell with \<open>globalCompositeOperation = 'destination-out'\<close> and the
  opaque stroke colour \<open>rgba(0,0,0,1)\<close>: the source alpha at the cell is the coverage \<open>k\<close>
  and the result alpha is the backdrop alpha times \<open>1 - k / 255\<close>, rounded to the nearest
  integer.  The colour channels are
  left as they are (what a premultiplied bitmap does to the colour of a cell of alpha 0 is
  not modelled).\<close>

definition destination_out :: "nat \<Rightarrow> rgba \<Rightarrow> rgba" where
  "destination_out k p = p\<lparr>alpha := (alpha p * (255 - min k 255) + 127) div 255\<rparr>"

definition stroke_destination_out ::
  "platform \<Rightarrow> real \<Rightarrow> real \<Rightarrow> real \<Rightarrow> real \<Rightarrow> nat \<Rightarrow> imagedata \<Rightarrow> imagedata" where
  "stroke_destination_out P x0 y0 x1 y1 lineWidth c =
     c\<lparr>data := map (\<lambda>k. destination_out
                             (strokeCoverage P x0 y0 x1 y1 lineWidth (k mod width c) (k div width c))
                             (data c ! k))
                  [0..<length (data c)]\<rparr>"

subsection \<open>Brush strokes\<close>

text \<open>A pointer event is given by its position in canvas coordinates; \<open>getMousePos\<close>
  returns null when there is no canvas.\<close>

definition getMousePos :: "point \<Rightarrow> session \<Rightarrow> point option" where
  "getMousePos e s = (case canvas s of None \<Rightarrow> None | Some c \<Rightarrow> Some e)"

definition drawLine :: "platform \<Rightarrow> real \<Rightarrow> real \<Rightarrow> real \<Rightarrow> real \<Rightarrow> session \<Rightarrow> session" where
  "drawLine P x0 y0 x1 y1 s =
     (case canvas s of
        None \<Rightarrow> s
      | Some c \<Rightarrow>
          if editMode s = Restore \<and> originalImage s = None then s
          else if editMode s = Erase then
            s\<lparr>canvas := Some (stroke_destination_out P x0 y0 x1 y1 (brushSize s) c)\<rparr>
          else if editMode s = Restore then
            (case originalImage s of
               None \<Rightarrow> s
             | Some originalImg \<Rightarrow>
                 s\<lparr>canvas := Some (repaint (restoredPixel P originalImg x0 y0 x1 y1 c) c)\<rparr>)
          else s)"

definition startDrawing :: "platform \<Rightarrow> point \<Rightarrow> session \<Rightarrow> session" where
  "startDrawing P e s =
     (if editMode s = Crop then s
      else
        let s1 = s\<lparr>isDrawing := True\<rparr>
        in case getMousePos e s1 of
             None \<Rightarrow> s1
           | Some pos \<Rightarrow>
               drawLine P (px pos) (py pos) (px pos) (py pos) (s1\<lparr>lastPoint := Some pos\<rparr>))"

definition draw :: "platform \<Rightarrow> point \<Rightarrow> session \<Rightarrow> session" where
  "draw P e s =
     (if editMode s = Crop then s
      else if \<not> isDrawing s then s
      else
        case getMousePos e s of
          None \<Rightarrow> s
        | Some currentPoint \<Rightarrow>
            (case lastPoint s of
               None \<Rightarrow> s
             | Some lp \<Rightarrow>
                 (drawLine P (px lp) (py lp) (px currentPoint) (py currentPoint) s)
                   \<lparr>lastPoint := Some currentPoint\<rparr>))"

text \<open>When \<open>saveToHistory\<close> raises, the two assignments after it are not reached.\<close>

definition stopDrawing :: "session \<Rightarrow> outcome" where
  "stopDrawing s =
     (if isDrawing s then
        (case saveToHistory s of
           (Some e, s1) \<Rightarrow> (Some e, s1)
         | (None, s1) \<Rightarrow> (None, s1\<lparr>isDrawing := False, lastPoint := None\<rparr>))
      else (None, s\<lparr>isDrawing := False, lastPoint := None\<rparr>))"

subsection \<open>Crop logic\<close>

definition getCropHandle :: "point \<Rightarrow> CropRect \<Rightarrow> string option" where
  "getCropHandle pos rect =
     (let x = rx rect; y = ry rect; w = rwidth rect; h = rheight rect; hs = HANDLE_SIZE
      in if px pos > x + w - hs \<and> px pos < x + w + hs \<and> py pos > y + h - hs \<and> py pos < y + h + hs
           then Some ''br''
         else if px pos > x - hs \<and> px pos < x + hs \<and> py pos > y - hs \<and> py pos < y + hs
           then Some ''tl''
         else if px pos > x + w - hs \<and> px pos < x + w + hs \<and> py pos > y - hs \<and> py pos < y + hs
           then Some ''tr''
         else if px pos > x - hs \<and> px pos < x + hs \<and> py pos > y + h - hs \<and> py pos < y + h + hs
           then Some ''bl''
         else if px pos > x + w / 2 - hs \<and> px pos < x + w / 2 + hs \<and> py pos > y - hs \<and> py pos < y + hs
           then Some ''tm''
         else if px pos > x + w / 2 - hs \<and> px pos < x + w / 2 + hs
                 \<and> py pos > y + h - hs \<and> py pos < y + h + hs
           then Some ''bm''
         else if px pos > x - hs \<and> px pos < x + hs
                 \<and> py pos > y + h / 2 - hs \<and> py pos < y + h / 2 + hs
           then Some ''ml''
         else if px pos > x + w - hs \<and> px pos < x + w + hs
                 \<and> py pos > y + h / 2 - hs \<and> py pos < y + h / 2 + hs
           then Some ''mr''
         else None)"

text \<open>JavaScript truthiness of a \<open>string | null\<close> value, and \<open>String.prototype.includes\<close>
  for a one-character argument.\<close>

definition truthy :: "string option \<Rightarrow> bool" where
  "truthy h = (case h of None \<Rightarrow> False | Some t \<Rightarrow> t \<noteq> [])"

definition str_includes :: "string \<Rightarrow> char \<Rightarrow> bool" where
  "str_includes t ch \<longleftrightarrow> ch \<in> set t"

definition handleCropMouseDown :: "point \<Rightarrow> session \<Rightarrow> session" where
  "handleCropMouseDown e s =
     (if editMode s \<noteq> Crop then s
      else
        case getMousePos e s of
          None \<Rightarrow> s
        | Some pos \<Rightarrow>
            let fresh = s\<lparr>cropAction := Some (\<lparr>atype = drawing, handle = None,
                                              startX = px pos, startY = py pos,
                                              startRect = None\<rparr>)\<rparr>
            in (case cropRect s of
                 None \<Rightarrow> fresh
               | Some r \<Rightarrow>
                   let h = getCropHandle pos r
                   in if truthy h then
                        s\<lparr>cropAction := Some (\<lparr>atype = resizing, handle = h,
                                               startX = px pos, startY = py pos,
                                               startRect = Some r\<rparr>)\<rparr>
                      else if px pos > rx r \<and> px pos < rx r + rwidth r
                              \<and> py pos > ry r \<and> py pos < ry r + rheight r then
                        s\<lparr>cropAction := Some (\<lparr>atype = moving, handle = None,
                                               startX = px pos, startY = py pos,
                                               startRect = Some r\<rparr>)\<rparr>
                      else fresh))"

text \<open>The resizing branch of \<open>handleCropMouseMove\<close>: the four edits in the order of the
  source, then the two normalisations.\<close>

definition resizeRect :: "string \<Rightarrow> real \<Rightarrow> real \<Rightarrow> CropRect \<Rightarrow> CropRect" where
  "resizeRect h dx dy r =
     (let x = rx r; y = ry r; w = rwidth r; ht = rheight r;
          (x, w) = (if str_includes h CHR ''l'' then (x + dx, w - dx) else (x, w));
          w = (if str_includes h CHR ''r'' then w + dx else w);
          (y, ht) = (if str_includes h CHR ''t'' then (y + dy, ht - dy) else (y, ht));
          ht = (if str_includes h CHR ''b'' then ht + dy else ht);
          (x, w) = (if w < 0 then (x + w, - w) else (x, w));
          (y, ht) = (if ht < 0 then (y + ht, - ht) else (y, ht))
      in \<lparr>rx = x, ry = y, rwidth = w, rheight = ht\<rparr>)"

text \<open>\<open>handleCropMouseMove\<close> also sets \<open>canvas.style.cursor\<close>, which is no part of the
  state modelled here.\<close>

definition handleCropMouseMove :: "point \<Rightarrow> session \<Rightarrow> session" where
  "handleCropMouseMove e s =
     (case getMousePos e s of
        None \<Rightarrow> s
      | Some pos \<Rightarrow>
          (case cropAction s of
             None \<Rightarrow> s
           | Some a \<Rightarrow>
               if editMode s \<noteq> Crop then s
               else if atype a = drawing then
                 s\<lparr>cropRect := Some \<lparr>rx = min (px pos) (startX a),
                                      ry = min (py pos) (startY a),
                                      rwidth = \<bar>px pos - startX a\<bar>,
                                      rheight = \<bar>py pos - startY a\<bar>\<rparr>\<rparr>
               else
                 (case startRect a of
                    None \<Rightarrow> s
                  | Some sr \<Rightarrow>
                      let dx = px pos - startX a; dy = py pos - startY a
                      in if atype a = moving then
                           s\<lparr>cropRect := Some (sr\<lparr>rx := rx sr + dx, ry := ry sr + dy\<rparr>)\<rparr>
                         else if atype a = resizing \<and> truthy (handle a) then
                           (case handle a of
                              None \<Rightarrow> s
                            | Some h \<Rightarrow> s\<lparr>cropRect := Some (resizeRect h dx dy sr)\<rparr>)
                         else s)))"

definition handleCropMouseUp :: "session \<Rightarrow> session" where
  "handleCropMouseUp s = s\<lparr>cropAction := None\<rparr>"

text \<open>The arguments of \<open>getImageData\<close> are \<open>[EnforceRange] long\<close>: a number is truncated
  towards zero and a \<open>TypeError\<close> is raised when the result is no 32-bit signed integer.
  The arguments are converted in order, before the rectangle is looked at.\<close>

definition to_long :: "real \<Rightarrow> error + int" where
  "to_long v =
     (let t = (if v < 0 then \<lceil>v\<rceil> else \<lfloor>v\<rfloor>)
      in if - 2147483648 \<le> t \<and> t \<le> 2147483647 then Inr t else Inl TypeError)"

definition getImageData_js ::
  "imagedata \<Rightarrow> real \<Rightarrow> real \<Rightarrow> real \<Rightarrow> real \<Rightarrow> error + imagedata" where
  "getImageData_js c sx sy sw sh =
     (case to_long sx of Inl e \<Rightarrow> Inl e | Inr ix \<Rightarrow>
     (case to_long sy of Inl e \<Rightarrow> Inl e | Inr iy \<Rightarrow>
     (case to_long sw of Inl e \<Rightarrow> Inl e | Inr iw \<Rightarrow>
     (case to_long sh of Inl e \<Rightarrow> Inl e | Inr ih \<Rightarrow>
        getImageData c ix iy iw ih))))"

text \<open>Assigning a number to \<open>canvas.width\<close> or \<open>canvas.height\<close>: the number is truncated
  and reduced modulo \<open>2^32\<close>; a result above \<open>2^31 - 1\<close> gives the attribute's default.\<close>

definition canvas_dim :: "nat \<Rightarrow> real \<Rightarrow> nat" where
  "canvas_dim dflt v =
     (let u = (if v < 0 then \<lceil>v\<rceil> else \<lfloor>v\<rfloor>) mod 4294967296
      in if u \<le> 2147483647 then nat u else dflt)"

text \<open>The \<open>onload\<close> callback that \<open>handleApplyCrop\<close> installs on the image made of the
  cropped original.  It closes over \<open>cropRect\<close>, \<open>croppedImageData\<close> and the
  \<open>saveToHistory\<close> of the render in which Apply was clicked.\<close>

definition applyCrop_onload ::
  "platform \<Rightarrow> CropRect \<Rightarrow> imagedata \<Rightarrow> imagedata \<Rightarrow> session \<Rightarrow> outcome" where
  "applyCrop_onload P r croppedImageData newOriginalImage s =
     (let s1 = s\<lparr>originalImage := Some newOriginalImage,
                  canvas := Some (putImageData P croppedImageData
                                    (blank (canvas_dim 300 (rwidth r))
                                           (canvas_dim 150 (rheight r))))\<rparr>
      in case saveToHistory s1 of
           (Some e, s2) \<Rightarrow> (Some e, s2)
         | (None, s2) \<Rightarrow> (None, s2\<lparr>cropRect := None, editMode := Erase\<rparr>))"

text \<open>\<open>handleApplyCrop\<close> followed by its \<open>onload\<close> callback, with no other event between
  the click and the callback.\<close>

definition handleApplyCrop :: "platform \<Rightarrow> session \<Rightarrow> outcome" where
  "handleApplyCrop P s =
     (case canvas s of
        None \<Rightarrow> (None, s)
      | Some c \<Rightarrow>
          (case cropRect s of
             None \<Rightarrow> (None, s)
           | Some r \<Rightarrow>
               (case originalImage s of
                  None \<Rightarrow> (None, s)
                | Some originalImg \<Rightarrow>
                    (case getImageData_js c (rx r) (ry r) (rwidth r) (rheight r) of
                       Inl e \<Rightarrow> (Some e, s)
                     | Inr croppedImageData \<Rightarrow>
                         applyCrop_onload P r croppedImageData
                           (repaint (croppedOriginalPixel P originalImg r)
                              (blank (canvas_dim 300 (rwidth r)) (canvas_dim 150 (rheight r))))
                           s))))"

definition handleCancelCrop :: "session \<Rightarrow> session" where
  "handleCancelCrop s = s\<lparr>cropRect := None, editMode := Erase\<rparr>"

definition handleSetEditMode :: "EditMode \<Rightarrow> session \<Rightarrow> session" where
  "handleSetEditMode m s =
     (let s1 = s\<lparr>editMode := m\<rparr>
      in if m = Crop \<and> cropRect s = None then
           (case canvas s of
              None \<Rightarrow> s1
            | Some c \<Rightarrow>
                s1\<lparr>cropRect := Some \<lparr>rx = real (width c) * 0.1, ry = real (height c) * 0.1,
                                       rwidth = real (width c) * 0.8,
                                       rheight = real (height c) * 0.8\<rparr>\<rparr>)
         else if m \<noteq> Crop then s1\<lparr>cropRect := None\<rparr>
         else s1)"


subsection \<open>Loading and redrawing\<close>

text \<open>The two \<open>onload\<close> callbacks of the first effect: the processed image is drawn on
  the canvas, resized to it, and becomes the first history entry; the original image is
  kept for restoring.\<close>

definition onProcessedLoad :: "platform \<Rightarrow> imagedata \<Rightarrow> session \<Rightarrow> outcome" where
  "onProcessedLoad P img s =
     (case canvas s of
        None \<Rightarrow> (None, s)
      | Some c \<Rightarrow>
          let c1 = putImageData P img (blank (width img) (height img))
          in (case getImageData c1 0 0 (int (width c1)) (int (height c1)) of
                Inl e \<Rightarrow> (Some e, s\<lparr>canvas := Some c1\<rparr>)
              | Inr initialImageData \<Rightarrow>
                  (None, s\<lparr>canvas := Some c1, history := [initialImageData],
                            historyIndex := 0\<rparr>)))"

definition onOriginalLoad :: "imagedata \<Rightarrow> session \<Rightarrow> session" where
  "onOriginalLoad img s = s\<lparr>originalImage := Some img\<rparr>"

text \<open>\<open>redrawCanvas\<close> runs as an effect after a render in which \<open>history\<close>,
  \<open>historyIndex\<close>, \<open>editMode\<close> or \<open>cropRect\<close> changed.\<close>

definition redrawCanvas :: "platform \<Rightarrow> session \<Rightarrow> session" where
  "redrawCanvas P s =
     (case canvas s of
        None \<Rightarrow> s
      | Some c \<Rightarrow>
          let c1 = blank (width c) (height c);
              c2 = (case js_index (history s) (historyIndex s) of
                      None \<Rightarrow> c1
                    | Some img \<Rightarrow> putImageData P img c1);
              c3 = (case cropRect s of
                      None \<Rightarrow> c2
                    | Some r \<Rightarrow> if editMode s = Crop then repaint (overlayPixel P r c2) c2 else c2)
          in s\<lparr>canvas := Some c3\<rparr>)"

subsection \<open>Sequences of handler calls\<close>

text \<open>Handlers run one after the other, each on the state the one before left, also
  after an exception (the page goes on); the first exception is reported.\<close>

fun run :: "(session \<Rightarrow> outcome) list \<Rightarrow> session \<Rightarrow> outcome" where
  "run [] s = (None, s)"
| "run (f # fs) s =
     (case f s of
        (e, s1) \<Rightarrow> (case run fs s1 of (e', s2) \<Rightarrow> (if e = None then e' else e, s2)))"

text \<open>A history push at a moment when the canvas shows the bitmap \<open>b\<close>.\<close>

definition push :: "imagedata \<Rightarrow> session \<Rightarrow> outcome" where
  "push b s = (case canvas s of None \<Rightarrow> saveToHistory s
                            | Some c \<Rightarrow> saveToHistory (s\<lparr>canvas := Some b\<rparr>))"

text \<open>A brush stroke: pointer-down at \<open>e\<close>, pointer-moves at \<open>es\<close>, then pointer-up (or
  pointer-leave, which is bound to the same handler).\<close>

definition strokeMoves :: "platform \<Rightarrow> point \<Rightarrow> point list \<Rightarrow> session \<Rightarrow> session" where
  "strokeMoves P e es s = foldl (\<lambda>t m. draw P m t) (startDrawing P e s) es"

definition stroke :: "platform \<Rightarrow> point \<Rightarrow> point list \<Rightarrow> session \<Rightarrow> outcome" where
  "stroke P e es s = stopDrawing (strokeMoves P e es s)"

text \<open>What the handlers of a stroke leave alone before the pointer-up: everything the
  history push reads but the pixels of the canvas, which stays a well-formed bitmap.\<close>

definition keeps_history :: "session \<Rightarrow> session \<Rightarrow> bool" where
  "keeps_history s t \<longleftrightarrow>
     editMode t = editMode s \<and> history t = history s \<and> historyIndex t = historyIndex s
     \<and> originalImage t = originalImage s \<and> cropRect t = cropRect s
     \<and> (case canvas t of None \<Rightarrow> False | Some c \<Rightarrow> wf_image c)"

subsection \<open>The handles as they are drawn\<close>

text \<open>\<open>drawCropOverlay\<close> draws a handle at each corner and each edge midpoint of the
  rectangle.  \<open>handleCentre\<close> gives the point by the name \<open>getCropHandle\<close> uses for it;
  \<open>handleOrder\<close> is the order in which \<open>getCropHandle\<close> tests them.\<close>

definition handleCentre :: "string \<Rightarrow> CropRect \<Rightarrow> point" where
  "handleCentre h r =
     \<lparr>px = (if str_includes h CHR ''l'' then rx r
             else if str_includes h CHR ''r'' then rx r + rwidth r
             else rx r + rwidth r / 2),
      py = (if str_includes h CHR ''t'' then ry r
             else if str_includes h CHR ''b'' then ry r + rheight r
             else ry r + rheight r / 2)\<rparr>"

definition handleOrder :: "string list" where
  "handleOrder = [''br'', ''tl'', ''tr'', ''bl'', ''tm'', ''bm'', ''ml'', ''mr'']"

text \<open>The open and the closed square of a given side centred on a point.\<close>

definition in_open_square :: "real \<Rightarrow> point \<Rightarrow> point \<Rightarrow> bool" where
  "in_open_square side c p \<longleftrightarrow> \<bar>px p - px c\<bar> < side / 2 \<and> \<bar>py p - py c\<bar> < side / 2"

definition in_closed_square :: "real \<Rightarrow> point \<Rightarrow> point \<Rightarrow> bool" where
  "in_closed_square side c p \<longleftrightarrow> \<bar>px p - px c\<bar> \<le> side / 2 \<and> \<bar>py p - py c\<bar> \<le> side / 2"

definition strictly_inside :: "point \<Rightarrow> CropRect \<Rightarrow> bool" where
  "strictly_inside p r \<longleftrightarrow>
     rx r < px p \<and> px p < rx r + rwidth r \<and> ry r < py p \<and> py p < ry r + rheight r"

text \<open>Flipping the origin of a rectangle of negative width or height.\<close>

definition normalizeRect :: "CropRect \<Rightarrow> CropRect" where
  "normalizeRect r =
     \<lparr>rx = (if rwidth r < 0 then rx r + rwidth r else rx r),
      ry = (if rheight r < 0 then ry r + rheight r else ry r),
      rwidth = \<bar>rwidth r\<bar>, rheight = \<bar>rheight r\<bar>\<rparr>"

definition in_some_handle_square :: "real \<Rightarrow> CropRect \<Rightarrow> point \<Rightarrow> bool" where
  "in_some_handle_square side r p \<longleftrightarrow>
     list_ex (\<lambda>h. in_closed_square side (handleCentre h r) p) handleOrder"

text \<open>The axis-aligned box between two points: origin at the smaller coordinates,
  absolute extents.\<close>

definition boxBetween :: "point \<Rightarrow> point \<Rightarrow> CropRect" where
  "boxBetween a p =
     \<lparr>rx = min (px a) (px p), ry = min (py a) (py p),
      rwidth = \<bar>px p - px a\<bar>, rheight = \<bar>py p - py a\<bar>\<rparr>"

subsection \<open>Sample values\<close>

text \<open>Opaque grey pixels and black pixels of a given alpha: a canvas holds both as they
  are.\<close>

definition grey :: "nat \<Rightarrow> rgba" where
  "grey v = \<lparr>red = v, green = v, blue = v, alpha = 255\<rparr>"

definition veil :: "nat \<Rightarrow> rgba" where
  "veil a = \<lparr>red = 0, green = 0, blue = 0, alpha = a\<rparr>"

definition dot :: "nat \<Rightarrow> imagedata" where
  "dot v = \<lparr>width = 1, height = 1, data = [grey v]\<rparr>"

definition veilDot :: "nat \<Rightarrow> imagedata" where
  "veilDot a = \<lparr>width = 1, height = 1, data = [veil a]\<rparr>"

definition tile :: imagedata where
  "tile = \<lparr>width = 2, height = 2, data = [grey 10, grey 20, grey 30, grey 40]\<rparr>"

definition plain :: "nat \<Rightarrow> nat \<Rightarrow> nat \<Rightarrow> imagedata" where
  "plain w h v = \<lparr>width = w, height = h, data = replicate (w * h) (grey v)\<rparr>"

text \<open>A store that multiplies each colour by \<open>alpha / 255\<close> and divides it back, rounding
  to the nearest integer both ways: opaque pixels read back as they were written,
  \<open>(128,128,128,1)\<close> reads back as \<open>(255,255,255,1)\<close>.\<close>

definition premultipliedRoundTrip :: "rgba \<Rightarrow> rgba" where
  "premultipliedRoundTrip p =
     (if alpha p = 0 then transparent
      else
        let a = alpha p;
            back = (\<lambda>v. min 255 (((v * a + 127) div 255 * 255 + a div 2) div a))
        in \<lparr>red = back (red p), green = back (green p), blue = back (blue p), alpha = a\<rparr>)"

text \<open>A platform with that store, whose strokes cover every cell by half and whose other
  drawing steps leave transparent black.\<close>

definition halfPlatform :: platform where
  "halfPlatform =
     \<lparr>storedPixel = premultipliedRoundTrip,
      strokeCoverage = (\<lambda>x0 y0 x1 y1 lw i j. 128),
      restoredPixel = (\<lambda>orig x0 y0 x1 y1 c i j. transparent),
      croppedOriginalPixel = (\<lambda>orig r i j. transparent),
      overlayPixel = (\<lambda>r c i j. transparent)\<rparr>"

text \<open>A session right after both images have loaded, \<open>img\<close> being what the canvas holds.\<close>

definition loaded :: "imagedata \<Rightarrow> session" where
  "loaded img =
     \<lparr>editMode = Erase, brushSize = 40, history = [img], historyIndex = 0,
      cropRect = None, cropAction = None, canvas = Some img, originalImage = Some img,
      isDrawing = False, lastPoint = None\<rparr>"

text \<open>A loaded session switched to Crop mode with the rectangle \<open>r\<close>.\<close>

definition cropping :: "CropRect \<Rightarrow> imagedata \<Rightarrow> session" where
  "cropping r img = (loaded img)\<lparr>editMode := Crop, cropRect := Some r\<rparr>"

definition rect :: "real \<Rightarrow> real \<Rightarrow> real \<Rightarrow> real \<Rightarrow> CropRect" where
  "rect x y w h = \<lparr>rx = x, ry = y, rwidth = w, rheight = h\<rparr>"

definition pt :: "real \<Rightarrow> real \<Rightarrow> point" where
  "pt x y = \<lparr>px = x, py = y\<rparr>"

text \<open>A session reached through the handlers: an image of 200 by 100 cells has loaded,
  the Crop tool is chosen (the rectangle starts at \<open>{20, 10, 160, 80}\<close>), the rectangle is
  dragged from (100,50) to (150,50) and released, with the redraw effect after each change
  of the rectangle.  The rectangle is then \<open>{70, 10, 160, 80}\<close> and reaches 30 cells
  beyond the right edge of the canvas.\<close>

definition cropDragged :: "platform \<Rightarrow> session" where
  "cropDragged P =
     handleCropMouseUp
       (redrawCanvas P
          (handleCropMouseMove (pt 150 50)
             (handleCropMouseDown (pt 100 50)
                (redrawCanvas P
                   (handleSetEditMode Crop (loaded (plain 200 100 90)))))))"

section \<open>Properties\<close>

subsection \<open>Snapshots and restores of well-formed bitmaps\<close>

lemma cell_decompose:
  fixes k w h :: nat
  assumes "k < w * h"
  shows "k div w < h" and "k div w * w + k mod w = k"
proof -
  from assms have "0 < w" by (cases w) auto
  with assms show "k div w < h"
    by (simp add: less_mult_imp_div_less mult.commute)
  show "k div w * w + k mod w = k" by simp
qed

lemma getImageData_full:
  assumes "wf_image c"
  shows "getImageData c 0 0 (int (width c)) (int (height c)) = Inr c"
proof -
  let ?w = "width c" and ?h = "height c"
  from assms have pos: "0 < ?w" "0 < ?h" and len: "length (data c) = ?w * ?h"
    by (simp_all add: wf_image_def)
  have cell: "pixel_at c (int (k mod ?w)) (int (k div ?w)) = data c ! k" if "k < ?w * ?h" for k
  proof -
    from that have "k div ?w < ?h" and "k div ?w * ?w + k mod ?w = k"
      by (rule cell_decompose)+
    moreover from pos have "k mod ?w < ?w" by simp
    ultimately show ?thesis using that len by (simp add: pixel_at_def)
  qed
  have "map (\<lambda>k. pixel_at c (int (k mod ?w)) (int (k div ?w))) [0..<?w * ?h]
        = map (\<lambda>k. data c ! k) [0..<length (data c)]"
    using cell len by simp
  also have "\<dots> = data c" by (rule map_nth)
  finally show ?thesis using pos by (simp add: getImageData_def)
qed

lemma putImageData_blank:
  assumes "wf_image img"
  shows "putImageData P img (blank (width img) (height img)) = onCanvas P img"
proof -
  let ?w = "width img" and ?h = "height img"
  from assms have pos: "0 < ?w" "0 < ?h" and len: "length (data img) = ?w * ?h"
    by (simp_all add: wf_image_def)
  have cell: "k div ?w < ?h" if "k < ?w * ?h" for k
    using that by (rule cell_decompose)
  have "data (putImageData P img (blank ?w ?h))
          = map (\<lambda>k. storedPixel P (data img ! k)) [0..<length (data img)]"
    using cell pos len by (simp add: putImageData_def blank_def Let_def)
  also have "\<dots> = map (storedPixel P) (map (\<lambda>k. data img ! k) [0..<length (data img)])"
    by simp
  also have "\<dots> = map (storedPixel P) (data img)"
    by (simp only: map_nth)
  finally show ?thesis by (simp add: putImageData_def blank_def onCanvas_def)
qed

lemma onCanvas_shape:
  "width (onCanvas P img) = width img"
  "height (onCanvas P img) = height img"
  "length (data (onCanvas P img)) = length (data img)"
  "wf_image (onCanvas P img) = wf_image img"
  by (simp_all add: onCanvas_def wf_image_def)

lemma onProcessedLoad_wf:
  assumes "canvas s \<noteq> None" and "wf_image img"
  shows "onProcessedLoad P img s
           = (None, s\<lparr>canvas := Some (onCanvas P img), history := [onCanvas P img],
                       historyIndex := 0\<rparr>)"
proof -
  from assms(2) have "wf_image (onCanvas P img)"
    by (simp add: onCanvas_shape)
  then have "getImageData (onCanvas P img) 0 0 (int (width (onCanvas P img)))
               (int (height (onCanvas P img))) = Inr (onCanvas P img)"
    by (rule getImageData_full)
  with assms show ?thesis
    by (auto simp: onProcessedLoad_def putImageData_blank Let_def)
qed

lemma redrawCanvas_entry:
  assumes "canvas s = Some c" and "js_index (history s) (historyIndex s) = Some img"
    and "wf_image img" and "width c = width img" and "height c = height img"
    and "editMode s \<noteq> Crop \<or> cropRect s = None"
  shows "redrawCanvas P s = s\<lparr>canvas := Some (onCanvas P img)\<rparr>"
  using assms putImageData_blank[of img P]
  by (auto simp: redrawCanvas_def Let_def split: option.splits)

subsection \<open>History pushes, undo and redo\<close>

lemma saveToHistory_wf:
  assumes "canvas s = Some c" and "wf_image c"
  shows "saveToHistory s =
           (None, s\<lparr>history := slice0 (history s) (historyIndex s + 1) @ [c],
                     historyIndex := int (length (slice0 (history s) (historyIndex s + 1)))\<rparr>)"
  using assms by (simp add: saveToHistory_def getImageData_full)

lemma saveToHistory_at_cursor:
  assumes "canvas s = Some c" and "wf_image c"
    and "0 \<le> historyIndex s" and "historyIndex s < int (length (history s))"
  shows "saveToHistory s =
           (None, s\<lparr>history := take (nat (historyIndex s) + 1) (history s) @ [c],
                     historyIndex := historyIndex s + 1\<rparr>)"
proof -
  from assms(3,4)
  have "slice0 (history s) (historyIndex s + 1) = take (nat (historyIndex s) + 1) (history s)"
    by (simp add: slice0_def nat_add_distrib)
  moreover from assms(3,4)
  have "int (length (take (nat (historyIndex s) + 1) (history s))) = historyIndex s + 1"
    by simp
  ultimately show ?thesis using saveToHistory_wf[OF assms(1,2)] by simp
qed

lemma handleUndo_step:
  assumes "canvas s = Some c" and "0 < historyIndex s"
    and "historyIndex s \<le> int (length (history s))"
    and "wf_image (history s ! nat (historyIndex s - 1))"
  shows "handleUndo P s =
           (None, s\<lparr>historyIndex := historyIndex s - 1,
                     canvas := Some (onCanvas P (history s ! nat (historyIndex s - 1)))\<rparr>)"
  using assms
  by (simp add: handleUndo_def restoreCanvasState_def js_index_def putImageData_blank Let_def)

lemma handleRedo_step:
  assumes "canvas s = Some c" and "- 1 \<le> historyIndex s"
    and "historyIndex s < int (length (history s)) - 1"
    and "wf_image (history s ! nat (historyIndex s + 1))"
  shows "handleRedo P s =
           (None, s\<lparr>historyIndex := historyIndex s + 1,
                     canvas := Some (onCanvas P (history s ! nat (historyIndex s + 1)))\<rparr>)"
  using assms
  by (simp add: handleRedo_def restoreCanvasState_def js_index_def putImageData_blank Let_def)

lemma wf_dot: "wf_image (dot a)"
  by (simp add: wf_image_def dot_def)

text \<open>
  C3.  A push keeps the entries up to and including the cursor, drops the entries beyond
  it, appends the snapshot of the canvas right after the cursor, and moves the cursor to
  that new last entry.  In particular, on a history of five entries with the cursor on the
  last one, two undos followed by a push leave four entries, the last of which is the
  pushed snapshot.
\<close>

theorem push_appends_after_cursor:
  "(canvas s = Some c \<and> wf_image c \<and> 0 \<le> historyIndex s
      \<and> historyIndex s < int (length (history s))
    \<longrightarrow> saveToHistory s =
          (None, s\<lparr>history := take (nat (historyIndex s) + 1) (history s) @ [c],
                    historyIndex := historyIndex s + 1\<rparr>)
        \<and> length (history (snd (saveToHistory s))) = nat (historyIndex s) + 2
        \<and> historyIndex (snd (saveToHistory s))
            = int (length (history (snd (saveToHistory s)))) - 1
        \<and> last (history (snd (saveToHistory s))) = c)
   \<and> (canvas t \<noteq> None \<and> length (history t) = 5 \<and> historyIndex t = 4
        \<and> wf_image (history t ! 3) \<and> wf_image (history t ! 2) \<and> wf_image b
      \<longrightarrow> run [handleUndo P, handleUndo P, push b] t
            = (None, t\<lparr>canvas := Some b, history := take 3 (history t) @ [b],
                        historyIndex := 3\<rparr>)
          \<and> length (history (snd (run [handleUndo P, handleUndo P, push b] t))) = 4
          \<and> last (history (snd (run [handleUndo P, handleUndo P, push b] t))) = b)"
proof (intro conjI impI)
  assume a: "canvas s = Some c \<and> wf_image c \<and> 0 \<le> historyIndex s
      \<and> historyIndex s < int (length (history s))"
  then have eq: "saveToHistory s =
          (None, s\<lparr>history := take (nat (historyIndex s) + 1) (history s) @ [c],
                    historyIndex := historyIndex s + 1\<rparr>)"
    by (simp add: saveToHistory_at_cursor)
  show "saveToHistory s =
          (None, s\<lparr>history := take (nat (historyIndex s) + 1) (history s) @ [c],
                    historyIndex := historyIndex s + 1\<rparr>)"
    by (rule eq)
  from a have len: "min (length (history s)) (Suc (nat (historyIndex s))) = Suc (nat (historyIndex s))"
    by linarith
  show "length (history (snd (saveToHistory s))) = nat (historyIndex s) + 2"
    by (simp add: eq len)
  from a show "historyIndex (snd (saveToHistory s))
            = int (length (history (snd (saveToHistory s)))) - 1"
    by (simp add: eq len)
  show "last (history (snd (saveToHistory s))) = c"
    by (simp add: eq)
next
  assume a: "canvas t \<noteq> None \<and> length (history t) = 5 \<and> historyIndex t = 4
        \<and> wf_image (history t ! 3) \<and> wf_image (history t ! 2) \<and> wf_image b"
  then obtain c where c: "canvas t = Some c" by auto
  let ?t1 = "t\<lparr>historyIndex := 3, canvas := Some (onCanvas P (history t ! 3))\<rparr>"
  let ?t2 = "t\<lparr>historyIndex := 2, canvas := Some (onCanvas P (history t ! 2))\<rparr>"
  from a c have u1: "handleUndo P t = (None, ?t1)"
    using handleUndo_step[of t c P] by simp
  from a have u2: "handleUndo P ?t1 = (None, ?t2)"
    using handleUndo_step[of ?t1 "onCanvas P (history t ! 3)" P] by simp
  from a have p: "push b ?t2 = (None, t\<lparr>canvas := Some b, history := take 3 (history t) @ [b],
                        historyIndex := 3\<rparr>)"
    using saveToHistory_at_cursor[of "?t2\<lparr>canvas := Some b\<rparr>" b] by (simp add: push_def)
  show r: "run [handleUndo P, handleUndo P, push b] t
            = (None, t\<lparr>canvas := Some b, history := take 3 (history t) @ [b],
                        historyIndex := 3\<rparr>)"
    by (simp add: u1 u2 p)
  from a show "length (history (snd (run [handleUndo P, handleUndo P, push b] t))) = 4"
    unfolding r by simp
  show "last (history (snd (run [handleUndo P, handleUndo P, push b] t))) = b"
    unfolding r by simp
qed

theorem push_appends_after_cursor_witness:
  "saveToHistory ((loaded (dot 1))\<lparr>history := [dot 1, dot 2, dot 3], historyIndex := 1,
                                    canvas := Some (dot 9)\<rparr>)
     = (None, (loaded (dot 1))\<lparr>history := [dot 1, dot 2, dot 9], historyIndex := 2,
                                 canvas := Some (dot 9)\<rparr>)
   \<and> run [handleUndo halfPlatform, handleUndo halfPlatform, push (dot 9)]
        ((loaded (dot 5))\<lparr>history := [dot 1, dot 2, dot 3, dot 4, dot 5], historyIndex := 4\<rparr>)
     = (None, (loaded (dot 5))\<lparr>history := [dot 1, dot 2, dot 3, dot 9], historyIndex := 3,
                                 canvas := Some (dot 9)\<rparr>)"
  using push_appends_after_cursor
          [of "(loaded (dot 1))\<lparr>history := [dot 1, dot 2, dot 3], historyIndex := 1,
                                  canvas := Some (dot 9)\<rparr>"
              "dot 9"
              "(loaded (dot 5))\<lparr>history := [dot 1, dot 2, dot 3, dot 4, dot 5],
                                  historyIndex := 4\<rparr>"
              "dot 9" halfPlatform]
  by (simp add: loaded_def wf_dot)

text \<open>
  C7.  Undo with the cursor on the first entry and redo with the cursor on the last entry
  return normally and leave the whole state, cursor, history and canvas included, as it
  was; \<open>canUndo\<close> holds exactly when the cursor is above 0 and \<open>canRedo\<close> exactly when it
  is below the last index.
\<close>

theorem undo_redo_at_bounds:
  "(historyIndex s = 0 \<longrightarrow> handleUndo P s = (None, s))
   \<and> (historyIndex s = int (length (history s)) - 1 \<longrightarrow> handleRedo P s = (None, s))
   \<and> (canUndo s \<longleftrightarrow> historyIndex s > 0)
   \<and> (canRedo s \<longleftrightarrow> historyIndex s < int (length (history s)) - 1)"
  by (simp add: handleUndo_def handleRedo_def canUndo_def canRedo_def)

theorem undo_redo_at_bounds_witness:
  "handleUndo halfPlatform (loaded tile) = (None, loaded tile)
   \<and> handleRedo halfPlatform (loaded tile) = (None, loaded tile)
   \<and> \<not> canUndo (loaded tile) \<and> \<not> canRedo (loaded tile)"
  using undo_redo_at_bounds[of "loaded tile" halfPlatform] by (simp add: loaded_def)

lemma run_append:
  "run (fs @ gs) s =
     (case run fs s of
        (e, s1) \<Rightarrow> (case run gs s1 of (e', s2) \<Rightarrow> (if e = None then e' else e, s2)))"
  by (induction fs arbitrary: s) (auto split: prod.splits)

lemma run_pushes:
  assumes "canvas s = Some c" and "0 \<le> historyIndex s"
    and "historyIndex s < int (length (history s))"
    and "\<forall>b\<in>set bs. wf_image b" and "bs \<noteq> []"
  shows "run (map push bs) s =
           (None, s\<lparr>canvas := Some (last bs),
                     history := take (nat (historyIndex s) + 1) (history s) @ bs,
                     historyIndex := historyIndex s + int (length bs)\<rparr>)"
  using assms
proof (induction bs arbitrary: s c)
  case Nil
  then show ?case by simp
next
  case (Cons b bs)
  let ?n = "nat (historyIndex s)"
  let ?s1 = "s\<lparr>canvas := Some b, history := take (?n + 1) (history s) @ [b],
                historyIndex := historyIndex s + 1\<rparr>"
  from Cons.prems have p: "push b s = (None, ?s1)"
    using saveToHistory_at_cursor[of "s\<lparr>canvas := Some b\<rparr>" b] by (simp add: push_def)
  show ?case
  proof (cases "bs = []")
    case True
    then show ?thesis by (simp add: p)
  next
    case False
    from Cons.prems have len: "length (take (?n + 1) (history s)) = ?n + 1"
      by simp
    have idx: "nat (historyIndex s + 1) = ?n + 1"
      using Cons.prems by (simp add: nat_add_distrib)
    have "run (map push bs) ?s1 =
            (None, ?s1\<lparr>canvas := Some (last bs),
                         history := take (nat (historyIndex ?s1) + 1) (history ?s1) @ bs,
                         historyIndex := historyIndex ?s1 + int (length bs)\<rparr>)"
      using Cons.prems False len by (intro Cons.IH[of ?s1 b]) simp_all
    then show ?thesis using False len idx by (simp add: p)
  qed
qed

lemma run_undos:
  assumes "canvas s = Some c" and "int k \<le> historyIndex s"
    and "historyIndex s < int (length (history s))"
    and "\<forall>img\<in>set (history s). wf_image img"
  shows "run (replicate k (handleUndo P)) s =
           (None, if k = 0 then s
                  else s\<lparr>historyIndex := historyIndex s - int k,
                          canvas := Some (onCanvas P (history s ! nat (historyIndex s - int k)))\<rparr>)"
  using assms
proof (induction k arbitrary: s c)
  case 0
  then show ?case by simp
next
  case (Suc k)
  let ?s1 = "s\<lparr>historyIndex := historyIndex s - 1,
                canvas := Some (onCanvas P (history s ! nat (historyIndex s - 1)))\<rparr>"
  from Suc.prems have "nat (historyIndex s - 1) < length (history s)" by linarith
  with Suc.prems have u: "handleUndo P s = (None, ?s1)"
    by (intro handleUndo_step[of s c]) simp_all
  from Suc.prems have "run (replicate k (handleUndo P)) ?s1 =
           (None, if k = 0 then ?s1
                  else ?s1\<lparr>historyIndex := historyIndex ?s1 - int k,
                            canvas := Some (onCanvas P
                                              (history ?s1 ! nat (historyIndex ?s1 - int k)))\<rparr>)"
    by (intro Suc.IH[of ?s1]) simp_all
  then show ?case by (simp add: u algebra_simps)
qed

lemma run_redos:
  assumes "canvas s = Some c" and "0 \<le> historyIndex s"
    and "historyIndex s + int k < int (length (history s))"
    and "\<forall>img\<in>set (history s). wf_image img"
  shows "run (replicate k (handleRedo P)) s =
           (None, if k = 0 then s
                  else s\<lparr>historyIndex := historyIndex s + int k,
                          canvas := Some (onCanvas P (history s ! nat (historyIndex s + int k)))\<rparr>)"
  using assms
proof (induction k arbitrary: s c)
  case 0
  then show ?case by simp
next
  case (Suc k)
  let ?s1 = "s\<lparr>historyIndex := historyIndex s + 1,
                canvas := Some (onCanvas P (history s ! nat (historyIndex s + 1)))\<rparr>"
  from Suc.prems have "nat (historyIndex s + 1) < length (history s)" by linarith
  with Suc.prems have u: "handleRedo P s = (None, ?s1)"
    by (intro handleRedo_step[of s c]) simp_all
  from Suc.prems have "run (replicate k (handleRedo P)) ?s1 =
           (None, if k = 0 then ?s1
                  else ?s1\<lparr>historyIndex := historyIndex ?s1 + int k,
                            canvas := Some (onCanvas P
                                              (history ?s1 ! nat (historyIndex ?s1 + int k)))\<rparr>)"
    by (intro Suc.IH[of ?s1]) simp_all
  then show ?case by (simp add: u algebra_simps)
qed

text \<open>After the pushes, undos and redos the canvas holds the last pushed bitmap when
  nothing was undone, and otherwise the entry under the cursor as \<open>restoreCanvasState\<close>
  has put it on the canvas.\<close>

lemma run_pushes_undos_redos:
  assumes c: "canvas s = Some c" and lo: "0 \<le> historyIndex s"
    and hi: "historyIndex s < int (length (history s))"
    and wfh: "\<forall>img\<in>set (history s). wf_image img"
    and wfb: "\<forall>b\<in>set bs. wf_image b"
    and ne: "bs \<noteq> []" and U: "U \<le> length bs" and R: "R \<le> U"
  defines "H \<equiv> take (nat (historyIndex s) + 1) (history s) @ bs"
    and "j \<equiv> historyIndex s + int (length bs) - int U + int R"
  shows "run (map push bs @ replicate U (handleUndo P) @ replicate R (handleRedo P)) s
           = (None, s\<lparr>canvas := Some (if U = 0 then H ! nat j else onCanvas P (H ! nat j)),
                       history := H, historyIndex := j\<rparr>)"
proof -
  let ?n = "nat (historyIndex s)"
  let ?N = "length bs"
  let ?s1 = "s\<lparr>canvas := Some (last bs), history := H,
                historyIndex := historyIndex s + int ?N\<rparr>"
  have s1: "run (map push bs) s = (None, ?s1)"
    unfolding H_def using c lo hi wfb ne by (rule run_pushes)
  from lo hi have lenH: "int (length H) = historyIndex s + int ?N + 1"
    by (simp add: H_def)
  have wfH: "\<forall>img\<in>set H. wf_image img"
    using wfh wfb by (auto simp: H_def dest: in_set_takeD)
  from lo hi have lenT: "length (take (?n + 1) (history s)) = ?n + 1"
    by simp
  have nthH: "H ! (?n + 1 + i) = bs ! i" for i
    unfolding H_def using lenT by (metis nth_append_length_plus)
  from ne have "nat (historyIndex s + int ?N) = ?n + 1 + (?N - 1)"
    using lo by (cases bs) (simp_all add: nat_add_distrib)
  then have "H ! nat (historyIndex s + int ?N) = bs ! (?N - 1)"
    by (simp only: nthH)
  with ne have lastH: "H ! nat (historyIndex s + int ?N) = last bs"
    by (simp add: last_conv_nth)
  show ?thesis
  proof (cases "U = 0")
    case True
    with R have R0: "R = 0" by simp
    from True R0 lastH have "?s1 = s\<lparr>canvas := Some (if U = 0 then H ! nat j
                                                    else onCanvas P (H ! nat j)),
                                       history := H, historyIndex := j\<rparr>"
      by (simp add: j_def)
    with s1 True R0 show ?thesis
      by (simp add: run_append)
  next
    case False
    let ?t2 = "s\<lparr>canvas := Some (onCanvas P (H ! nat (historyIndex s + int ?N - int U))),
                  history := H, historyIndex := historyIndex s + int ?N - int U\<rparr>"
    have "run (replicate U (handleUndo P)) ?s1
            = (None, if U = 0 then ?s1
                     else ?s1\<lparr>historyIndex := historyIndex ?s1 - int U,
                               canvas := Some (onCanvas P
                                                 (history ?s1 ! nat (historyIndex ?s1 - int U)))\<rparr>)"
      using lo U lenH wfH by (intro run_undos[of ?s1 "last bs"]) simp_all
    with False have u: "run (replicate U (handleUndo P)) ?s1 = (None, ?t2)"
      by simp
    have "run (replicate R (handleRedo P)) ?t2
            = (None, if R = 0 then ?t2
                     else ?t2\<lparr>historyIndex := historyIndex ?t2 + int R,
                               canvas := Some (onCanvas P
                                                 (history ?t2 ! nat (historyIndex ?t2 + int R)))\<rparr>)"
      using lo U R lenH wfH
      by (intro run_redos[of ?t2 "onCanvas P (H ! nat (historyIndex s + int ?N - int U))"])
         simp_all
    with False have r: "run (replicate R (handleRedo P)) ?t2
             = (None, s\<lparr>canvas := Some (if U = 0 then H ! nat j else onCanvas P (H ! nat j)),
                         history := H, historyIndex := j\<rparr>)"
      by (simp add: j_def)
    show ?thesis
      by (simp only: run_append s1 u r prod.case simp_thms if_True)
  qed
qed

lemma onCanvas_grey:
  "v \<le> 255 \<Longrightarrow> storedPixel halfPlatform (grey v) = grey v"
  by (simp add: halfPlatform_def premultipliedRoundTrip_def grey_def Let_def)

lemma onCanvas_dot:
  "v \<le> 255 \<Longrightarrow> onCanvas halfPlatform (dot v) = dot v"
  by (simp add: onCanvas_def dot_def onCanvas_grey)

text \<open>
  C2 (amended).  Start from a loaded session (a canvas, the cursor on an entry of the
  history), push the \<open>N \<ge> 1\<close> bitmaps \<open>bs\<close>, undo \<open>U \<le> N\<close> times and redo \<open>R \<le> U\<close>
  times.  No handler raises, the history is the old entries up to the old cursor followed
  by \<open>bs\<close>, and the cursor has moved by \<open>N - U + R\<close>.  The entry under the cursor is the
  pushed bitmap of index \<open>N - 1 - U + R\<close> when \<open>U < N\<close> or \<open>0 < R\<close>, and the entry that was
  under the cursor before the first push when \<open>U = N\<close> and \<open>R = 0\<close>.  With no undo the
  canvas holds the last pushed bitmap itself.  After an undo the canvas holds the entry
  under the cursor as \<open>putImageData\<close> has stored it, every pixel through the bitmap's
  store; it equals the entry when the store returns the pixels of that entry as they are
  (as it does for opaque pixels).  Outside Crop mode the redraw effect that follows
  puts the entry under the cursor on the canvas in the same way.
\<close>

theorem visible_after_pushes_undos_redos:
  fixes P :: platform
  assumes c: "canvas s = Some c" and lo: "0 \<le> historyIndex s"
    and hi: "historyIndex s < int (length (history s))"
    and wfh: "\<forall>img\<in>set (history s). wf_image img"
    and wfb: "\<forall>b\<in>set bs. wf_image b"
    and ne: "bs \<noteq> []" and U: "U \<le> length bs" and R: "R \<le> U"
  defines "after \<equiv>
     snd (run (map push bs @ replicate U (handleUndo P) @ replicate R (handleRedo P)) s)"
  shows "fst (run (map push bs @ replicate U (handleUndo P) @ replicate R (handleRedo P)) s)
           = None
    \<and> history after = take (nat (historyIndex s) + 1) (history s) @ bs
    \<and> historyIndex after = historyIndex s + int (length bs) - int U + int R
    \<and> (U < length bs \<or> 0 < R \<longrightarrow>
         history after ! nat (historyIndex after)
           = bs ! nat (int (length bs) - 1 - int U + int R))
    \<and> (U = length bs \<and> R = 0 \<longrightarrow>
         history after ! nat (historyIndex after) = history s ! nat (historyIndex s))
    \<and> (U = 0 \<longrightarrow> canvas after = Some (bs ! nat (int (length bs) - 1 - int U + int R)))
    \<and> (0 < U \<longrightarrow>
         canvas after = Some (onCanvas P (history after ! nat (historyIndex after))))
    \<and> (onCanvas P (history after ! nat (historyIndex after))
          = history after ! nat (historyIndex after)
        \<longrightarrow> canvas after = Some (history after ! nat (historyIndex after)))
    \<and> (editMode s \<noteq> Crop \<longrightarrow>
         redrawCanvas P after
           = after\<lparr>canvas := Some (onCanvas P (history after ! nat (historyIndex after)))\<rparr>)"
proof -
  let ?n = "nat (historyIndex s)"
  let ?H = "take (?n + 1) (history s) @ bs"
  let ?j = "historyIndex s + int (length bs) - int U + int R"
  let ?cv = "if U = 0 then ?H ! nat ?j else onCanvas P (?H ! nat ?j)"
  let ?s' = "s\<lparr>canvas := Some ?cv, history := ?H, historyIndex := ?j\<rparr>"
  have r: "run (map push bs @ replicate U (handleUndo P) @ replicate R (handleRedo P)) s
             = (None, ?s')"
    using c lo hi wfh wfb ne U R by (rule run_pushes_undos_redos)
  then have after: "after = ?s'"
    by (simp add: after_def)
  from lo hi have lenT: "length (take (?n + 1) (history s)) = ?n + 1"
    by simp
  have inner: "?H ! nat ?j = bs ! nat (int (length bs) - 1 - int U + int R)"
    if "U < length bs \<or> 0 < R"
  proof -
    from that U R lo have "nat ?j = ?n + 1 + nat (int (length bs) - 1 - int U + int R)"
      by linarith
    then show ?thesis using lenT by (metis nth_append_length_plus)
  qed
  have outer: "?H ! nat ?j = history s ! ?n" if "U = length bs \<and> R = 0"
  proof -
    from that have "nat ?j = ?n" by simp
    moreover from lenT have "?n < length (take (?n + 1) (history s))" by simp
    ultimately show ?thesis by (simp add: nth_append del: length_take)
  qed
  from lo U R have j: "0 \<le> ?j" "nat ?j < length ?H"
    using lenT by (simp_all del: length_take)
  from wfh wfb have "\<forall>img\<in>set ?H. wf_image img"
    by (auto dest: in_set_takeD)
  with j have wfj: "wf_image (?H ! nat ?j)"
    using nth_mem by blast
  have redraw: "redrawCanvas P ?s' = ?s'\<lparr>canvas := Some (onCanvas P (?H ! nat ?j))\<rparr>"
    if "editMode s \<noteq> Crop"
  proof -
    from j have "js_index (history ?s') (historyIndex ?s') = Some (?H ! nat ?j)"
      by (simp add: js_index_def del: length_take length_append)
    then show ?thesis
      using that wfj
      by (intro redrawCanvas_entry[of ?s' ?cv]) (simp_all add: onCanvas_shape)
  qed
  have g1: "history ?s' = ?H" and g2: "historyIndex ?s' = ?j"
    by simp_all
  have g3: "U < length bs \<or> 0 < R \<longrightarrow>
         history ?s' ! nat (historyIndex ?s')
           = bs ! nat (int (length bs) - 1 - int U + int R)"
    unfolding g1 g2 using inner by blast
  have g4: "U = length bs \<and> R = 0 \<longrightarrow>
         history ?s' ! nat (historyIndex ?s') = history s ! nat (historyIndex s)"
    unfolding g1 g2 using outer by blast
  have g5: "U = 0 \<longrightarrow> canvas ?s' = Some (bs ! nat (int (length bs) - 1 - int U + int R))"
  proof
    assume U0: "U = 0"
    with ne have "U < length bs \<or> 0 < R" by simp
    then have "?H ! nat ?j = bs ! nat (int (length bs) - 1 - int U + int R)"
      by (rule inner)
    moreover from U0 have "canvas ?s' = Some (?H ! nat ?j)" by simp
    ultimately show "canvas ?s' = Some (bs ! nat (int (length bs) - 1 - int U + int R))"
      by simp
  qed
  have g6: "0 < U \<longrightarrow>
         canvas ?s' = Some (onCanvas P (history ?s' ! nat (historyIndex ?s')))"
    by simp
  have g7: "onCanvas P (history ?s' ! nat (historyIndex ?s'))
          = history ?s' ! nat (historyIndex ?s')
        \<longrightarrow> canvas ?s' = Some (history ?s' ! nat (historyIndex ?s'))"
    by simp
  have g8: "editMode s \<noteq> Crop \<longrightarrow>
         redrawCanvas P ?s'
           = ?s'\<lparr>canvas := Some (onCanvas P (history ?s' ! nat (historyIndex ?s')))\<rparr>"
    unfolding g1 g2 using redraw by blast
  show ?thesis
    unfolding r fst_conv after
    using g1 g2 g3 g4 g5 g6 g7 g8 by blast
qed

theorem visible_after_pushes_undos_redos_witness:
  "canvas (snd (run (map push [dot 2, dot 3, dot 4]
                       @ replicate (Suc (Suc 0)) (handleUndo halfPlatform)
                       @ replicate (Suc 0) (handleRedo halfPlatform))
                  (loaded (dot 1))))
     = Some (dot 3)
   \<and> canvas (snd (run (map push [dot 2, dot 3, dot 4]
                       @ replicate (Suc (Suc (Suc 0))) (handleUndo halfPlatform)
                       @ replicate 0 (handleRedo halfPlatform))
                  (loaded (dot 1))))
     = Some (dot 1)"
  using visible_after_pushes_undos_redos
          [where s = "loaded (dot 1)" and c = "dot 1" and bs = "[dot 2, dot 3, dot 4]"
             and U = "Suc (Suc 0)" and R = "Suc 0" and P = halfPlatform]
        visible_after_pushes_undos_redos
          [where s = "loaded (dot 1)" and c = "dot 1" and bs = "[dot 2, dot 3, dot 4]"
             and U = "Suc (Suc (Suc 0))" and R = 0 and P = halfPlatform]
  by (simp add: loaded_def wf_dot onCanvas_dot)

theorem visible_index_counterexample:
  "canvas (snd (run (map push [dot 2] @ replicate (Suc 0) (handleUndo halfPlatform)
                       @ replicate 0 (handleRedo halfPlatform))
                  (loaded (dot 1))))
     = Some (dot 1)
   \<and> dot 1 \<notin> set [dot 2]
   \<and> int (length [dot 2]) - 1 - int (Suc 0) + int 0 = - 1"
proof -
  have p: "push (dot 2) (loaded (dot 1))
             = (None, (loaded (dot 1))\<lparr>canvas := Some (dot 2), history := [dot 1, dot 2],
                                         historyIndex := 1\<rparr>)"
    using saveToHistory_at_cursor[of "(loaded (dot 1))\<lparr>canvas := Some (dot 2)\<rparr>" "dot 2"]
    by (simp add: push_def loaded_def wf_dot)
  have u: "handleUndo halfPlatform
             ((loaded (dot 1))\<lparr>canvas := Some (dot 2), history := [dot 1, dot 2],
                                historyIndex := 1\<rparr>)
             = (None, (loaded (dot 1))\<lparr>canvas := Some (dot 1), history := [dot 1, dot 2],
                                         historyIndex := 0\<rparr>)"
    using handleUndo_step[of "(loaded (dot 1))\<lparr>canvas := Some (dot 2),
                                history := [dot 1, dot 2], historyIndex := 1\<rparr>" "dot 2"
                             halfPlatform]
    by (simp add: loaded_def wf_dot onCanvas_dot)
  have r: "run (map push [dot 2] @ replicate (Suc 0) (handleUndo halfPlatform)
                  @ replicate 0 (handleRedo halfPlatform))
             (loaded (dot 1))
           = (None, (loaded (dot 1))\<lparr>canvas := Some (dot 1), history := [dot 1, dot 2],
                                       historyIndex := 0\<rparr>)"
    by (simp only: list.map append.simps replicate.simps run.simps p u prod.case
                   simp_thms if_True)
  have "dot 1 \<noteq> dot 2"
    by (simp add: dot_def grey_def)
  then show ?thesis
    unfolding r by simp
qed

subsection \<open>Drawing and resizing the crop rectangle\<close>

lemma handleCropMouseMove_drawing:
  assumes "editMode s = Crop" and "canvas s \<noteq> None"
    and "cropAction s = Some a" and "atype a = drawing"
  shows "handleCropMouseMove p s =
           s\<lparr>cropRect := Some (boxBetween \<lparr>px = startX a, py = startY a\<rparr> p)\<rparr>"
  using assms
  by (auto simp: handleCropMouseMove_def getMousePos_def boxBetween_def min.commute)

lemma handleCropMouseDown_fresh:
  assumes "editMode s = Crop" and "canvas s \<noteq> None"
    and "map_option atype (cropAction (handleCropMouseDown a0 s)) = Some drawing"
  shows "cropAction (handleCropMouseDown a0 s)
           = Some \<lparr>atype = drawing, handle = None, startX = px a0, startY = py a0,
                    startRect = None\<rparr>"
  using assms
  by (auto simp: handleCropMouseDown_def getMousePos_def Let_def
           split: option.splits if_splits)

text \<open>
  C6.  While a drawing action is active, a pointer-move at \<open>p\<close> sets the crop rectangle to
  the box between the anchor of the action and \<open>p\<close>: its origin is the smaller of the two
  coordinates on each axis and its extents are the absolute differences, so it reaches
  the larger coordinates whichever way the pointer went.  The anchor of a drawing action
  is the pointer-down point.  Dragging from (100,100) to (40,40) gives
  \<open>{x:40, y:40, width:60, height:60}\<close>.
\<close>

theorem drawing_box_between_anchor_and_pointer:
  "(editMode s = Crop \<and> canvas s \<noteq> None \<and> cropAction s = Some a \<and> atype a = drawing
      \<longrightarrow> handleCropMouseMove p s
            = s\<lparr>cropRect := Some \<lparr>rx = min (px p) (startX a), ry = min (py p) (startY a),
                                   rwidth = \<bar>px p - startX a\<bar>,
                                   rheight = \<bar>py p - startY a\<bar>\<rparr>\<rparr>)
   \<and> (editMode s = Crop \<and> canvas s \<noteq> None
        \<and> map_option atype (cropAction (handleCropMouseDown a0 s)) = Some drawing
      \<longrightarrow> cropRect (handleCropMouseMove p (handleCropMouseDown a0 s)) = Some (boxBetween a0 p))
   \<and> rx (boxBetween a0 p) = min (px a0) (px p)
   \<and> ry (boxBetween a0 p) = min (py a0) (py p)
   \<and> rx (boxBetween a0 p) + rwidth (boxBetween a0 p) = max (px a0) (px p)
   \<and> ry (boxBetween a0 p) + rheight (boxBetween a0 p) = max (py a0) (py p)
   \<and> 0 \<le> rwidth (boxBetween a0 p) \<and> 0 \<le> rheight (boxBetween a0 p)
   \<and> boxBetween (pt 100 100) (pt 40 40) = rect 40 40 60 60"
proof (intro conjI impI)
  assume a: "editMode s = Crop \<and> canvas s \<noteq> None \<and> cropAction s = Some a \<and> atype a = drawing"
  then show "handleCropMouseMove p s
            = s\<lparr>cropRect := Some \<lparr>rx = min (px p) (startX a), ry = min (py p) (startY a),
                                   rwidth = \<bar>px p - startX a\<bar>,
                                   rheight = \<bar>py p - startY a\<bar>\<rparr>\<rparr>"
    by (auto simp: handleCropMouseMove_def getMousePos_def)
next
  assume a: "editMode s = Crop \<and> canvas s \<noteq> None
        \<and> map_option atype (cropAction (handleCropMouseDown a0 s)) = Some drawing"
  let ?t = "handleCropMouseDown a0 s"
  from a have act: "cropAction ?t = Some \<lparr>atype = drawing, handle = None, startX = px a0,
                                          startY = py a0, startRect = None\<rparr>"
    by (simp add: handleCropMouseDown_fresh)
  from a have "editMode ?t = Crop" and "canvas ?t \<noteq> None"
    by (auto simp: handleCropMouseDown_def getMousePos_def Let_def split: option.splits)
  then have "handleCropMouseMove p ?t
               = ?t\<lparr>cropRect := Some (boxBetween \<lparr>px = startX \<lparr>atype = drawing, handle = None, startX = px a0,
                                          startY = py a0, startRect = None\<rparr>, py = startY \<lparr>atype = drawing, handle = None, startX = px a0,
                                          startY = py a0, startRect = None\<rparr>\<rparr> p)\<rparr>"
    using act by (intro handleCropMouseMove_drawing) simp_all
  then show "cropRect (handleCropMouseMove p ?t) = Some (boxBetween a0 p)"
    by (simp add: boxBetween_def)
qed (auto simp: boxBetween_def pt_def rect_def)

theorem drawing_box_between_anchor_and_pointer_witness:
  "cropRect (handleCropMouseMove (pt 40 40)
               (handleCropMouseDown (pt 100 100) ((loaded tile)\<lparr>editMode := Crop\<rparr>)))
     = Some (rect 40 40 60 60)
   \<and> handleCropMouseMove (pt 40 40)
        ((loaded tile)\<lparr>editMode := Crop,
                        cropAction := Some \<lparr>atype = drawing, handle = None, startX = 100,
                                             startY = 100, startRect = None\<rparr>\<rparr>)
     = (loaded tile)\<lparr>editMode := Crop,
                      cropAction := Some \<lparr>atype = drawing, handle = None, startX = 100,
                                           startY = 100, startRect = None\<rparr>,
                      cropRect := Some (rect 40 40 60 60)\<rparr>"
  using drawing_box_between_anchor_and_pointer
          [of "(loaded tile)\<lparr>editMode := Crop,
                        cropAction := Some \<lparr>atype = drawing, handle = None, startX = 100,
                                             startY = 100, startRect = None\<rparr>\<rparr>"
              "\<lparr>atype = drawing, handle = None, startX = 100, startY = 100, startRect = None\<rparr>"
              "pt 40 40" "pt 100 100"]
        drawing_box_between_anchor_and_pointer
          [of "(loaded tile)\<lparr>editMode := Crop\<rparr>" _ "pt 40 40" "pt 100 100"]
  by (simp add: loaded_def pt_def rect_def handleCropMouseDown_def getMousePos_def)

lemma handleCropMouseMove_resizing:
  assumes "editMode s = Crop" and "canvas s \<noteq> None" and "cropAction s = Some a"
    and "atype a = resizing" and "startRect a = Some sr" and "handle a = Some h" and "h \<noteq> []"
  shows "handleCropMouseMove p s =
           s\<lparr>cropRect := Some (resizeRect h (px p - startX a) (py p - startY a) sr)\<rparr>"
  using assms
  by (auto simp: handleCropMouseMove_def getMousePos_def truthy_def Let_def)

lemma resizeRect_nonneg:
  "0 \<le> rwidth (resizeRect h dx dy r) \<and> 0 \<le> rheight (resizeRect h dx dy r)"
  by (simp add: resizeRect_def Let_def)

text \<open>
  C5.  While a resizing action is active, a pointer-move sets the crop rectangle from
  the rectangle saved at pointer-down, the handle of the action and the pointer's offset
  from the anchor, whatever the rectangle has become in between.  A handle on the left
  edge moves \<open>x\<close> and shrinks the width by the horizontal offset, a handle on the right
  edge grows the width, a handle on the top edge moves \<open>y\<close> and shrinks the height by the
  vertical offset, a handle on the bottom edge grows the height; an edge-midpoint handle
  leaves the other axis alone.  A negative width or height is then flipped: the origin
  moves by it and the extent becomes its absolute value.  From \<open>{x:10, y:10, w:50, h:50}\<close>
  and the offset (+20,-5), handle \<open>br\<close> gives \<open>{x:10, y:10, w:70, h:45}\<close> and handle
  \<open>tl\<close> gives \<open>{x:30, y:5, w:30, h:55}\<close>.
\<close>

theorem resize_by_handle:
  "(editMode s = Crop \<and> canvas s \<noteq> None \<and> cropAction s = Some a \<and> atype a = resizing
      \<and> startRect a = Some sr \<and> handle a = Some h \<and> h \<noteq> []
    \<longrightarrow> handleCropMouseMove p s
          = s\<lparr>cropRect := Some (resizeRect h (px p - startX a) (py p - startY a) sr)\<rparr>)
   \<and> resizeRect ''tl'' dx dy r
       = normalizeRect (rect (rx r + dx) (ry r + dy) (rwidth r - dx) (rheight r - dy))
   \<and> resizeRect ''tm'' dx dy r
       = normalizeRect (rect (rx r) (ry r + dy) (rwidth r) (rheight r - dy))
   \<and> resizeRect ''tr'' dx dy r
       = normalizeRect (rect (rx r) (ry r + dy) (rwidth r + dx) (rheight r - dy))
   \<and> resizeRect ''ml'' dx dy r
       = normalizeRect (rect (rx r + dx) (ry r) (rwidth r - dx) (rheight r))
   \<and> resizeRect ''mr'' dx dy r
       = normalizeRect (rect (rx r) (ry r) (rwidth r + dx) (rheight r))
   \<and> resizeRect ''bl'' dx dy r
       = normalizeRect (rect (rx r + dx) (ry r) (rwidth r - dx) (rheight r + dy))
   \<and> resizeRect ''bm'' dx dy r
       = normalizeRect (rect (rx r) (ry r) (rwidth r) (rheight r + dy))
   \<and> resizeRect ''br'' dx dy r
       = normalizeRect (rect (rx r) (ry r) (rwidth r + dx) (rheight r + dy))
   \<and> 0 \<le> rwidth (resizeRect h dx dy r) \<and> 0 \<le> rheight (resizeRect h dx dy r)
   \<and> resizeRect ''br'' 20 (- 5) (rect 10 10 50 50) = rect 10 10 70 45
   \<and> resizeRect ''tl'' 20 (- 5) (rect 10 10 50 50) = rect 30 5 30 55"
proof (intro conjI impI)
  assume "editMode s = Crop \<and> canvas s \<noteq> None \<and> cropAction s = Some a \<and> atype a = resizing
      \<and> startRect a = Some sr \<and> handle a = Some h \<and> h \<noteq> []"
  then show "handleCropMouseMove p s
          = s\<lparr>cropRect := Some (resizeRect h (px p - startX a) (py p - startY a) sr)\<rparr>"
    by (simp add: handleCropMouseMove_resizing)
next
  show "0 \<le> rwidth (resizeRect h dx dy r)" and "0 \<le> rheight (resizeRect h dx dy r)"
    by (simp_all add: resizeRect_nonneg)
qed (simp_all add: resizeRect_def normalizeRect_def rect_def str_includes_def Let_def)

theorem resize_by_handle_witness:
  "handleCropMouseMove (pt 120 95)
     ((cropping (rect 0 0 1 1) tile)
        \<lparr>cropAction := Some \<lparr>atype = resizing, handle = Some ''tl'', startX = 100,
                              startY = 100, startRect = Some (rect 10 10 50 50)\<rparr>\<rparr>)
   = (cropping (rect 0 0 1 1) tile)
        \<lparr>cropAction := Some \<lparr>atype = resizing, handle = Some ''tl'', startX = 100,
                              startY = 100, startRect = Some (rect 10 10 50 50)\<rparr>,
          cropRect := Some (rect 30 5 30 55)\<rparr>"
  using resize_by_handle
          [where s = "(cropping (rect 0 0 1 1) tile)
                 \<lparr>cropAction := Some \<lparr>atype = resizing, handle = Some ''tl'', startX = 100,
                                       startY = 100, startRect = Some (rect 10 10 50 50)\<rparr>\<rparr>"
             and a = "\<lparr>atype = resizing, handle = Some ''tl'', startX = 100, startY = 100,
                 startRect = Some (rect 10 10 50 50)\<rparr>"
             and sr = "rect 10 10 50 50" and h = "''tl''" and p = "pt 120 95"
             and dx = 20 and dy = "- 5" and r = "rect 10 10 50 50"]
  by (simp add: cropping_def loaded_def pt_def rect_def resizeRect_def normalizeRect_def
                str_includes_def Let_def)

subsection \<open>Hit-testing\<close>

lemma in_open_square_bounds:
  "in_open_square (2 * hs) c p \<longleftrightarrow>
     px p > px c - hs \<and> px p < px c + hs \<and> py p > py c - hs \<and> py p < py c + hs"
  by (auto simp: in_open_square_def abs_less_iff)

lemma handleCentre_names:
  "handleCentre ''br'' r = \<lparr>px = rx r + rwidth r, py = ry r + rheight r\<rparr>"
  "handleCentre ''tl'' r = \<lparr>px = rx r, py = ry r\<rparr>"
  "handleCentre ''tr'' r = \<lparr>px = rx r + rwidth r, py = ry r\<rparr>"
  "handleCentre ''bl'' r = \<lparr>px = rx r, py = ry r + rheight r\<rparr>"
  "handleCentre ''tm'' r = \<lparr>px = rx r + rwidth r / 2, py = ry r\<rparr>"
  "handleCentre ''bm'' r = \<lparr>px = rx r + rwidth r / 2, py = ry r + rheight r\<rparr>"
  "handleCentre ''ml'' r = \<lparr>px = rx r, py = ry r + rheight r / 2\<rparr>"
  "handleCentre ''mr'' r = \<lparr>px = rx r + rwidth r, py = ry r + rheight r / 2\<rparr>"
  by (simp_all add: handleCentre_def str_includes_def)

lemma getCropHandle_find:
  "getCropHandle p r
     = find (\<lambda>h. in_open_square (2 * HANDLE_SIZE) (handleCentre h r) p) handleOrder"
  by (simp only: getCropHandle_def handleOrder_def Let_def find.simps in_open_square_bounds
                 handleCentre_names point.select_convs)

lemma getCropHandle_truthy:
  "getCropHandle p r = Some h \<Longrightarrow> h \<in> set handleOrder \<and> h \<noteq> []"
  unfolding getCropHandle_find by (auto simp: handleOrder_def split: if_splits)

lemma handleCropMouseDown_cases:
  assumes "editMode s = Crop" and "canvas s \<noteq> None"
  shows "handleCropMouseDown p s =
           s\<lparr>cropAction := Some
               (case cropRect s of
                  None \<Rightarrow> \<lparr>atype = drawing, handle = None, startX = px p, startY = py p,
                            startRect = None\<rparr>
                | Some r \<Rightarrow>
                    (case getCropHandle p r of
                       Some h \<Rightarrow> \<lparr>atype = resizing, handle = Some h, startX = px p,
                                   startY = py p, startRect = Some r\<rparr>
                     | None \<Rightarrow>
                         if strictly_inside p r
                         then \<lparr>atype = moving, handle = None, startX = px p, startY = py p,
                               startRect = Some r\<rparr>
                         else \<lparr>atype = drawing, handle = None, startX = px p, startY = py p,
                               startRect = None\<rparr>))\<rparr>"
proof (cases "cropRect s")
  case None
  with assms show ?thesis
    by (auto simp: handleCropMouseDown_def getMousePos_def)
next
  case (Some r)
  show ?thesis
  proof (cases "getCropHandle p r")
    case None
    with Some assms show ?thesis
      by (auto simp: handleCropMouseDown_def getMousePos_def truthy_def strictly_inside_def)
  next
    case (Some h)
    then have "h \<noteq> []" by (simp add: getCropHandle_truthy)
    with Some \<open>cropRect s = Some r\<close> assms show ?thesis
      by (auto simp: handleCropMouseDown_def getMousePos_def truthy_def)
  qed
qed

text \<open>
  C4 (amended).  \<open>getCropHandle\<close> returns the first handle, in the order br, tl, tr, bl, tm,
  bm, ml, mr, whose hit region contains the point; the hit region of a handle is the open
  square that reaches \<open>HANDLE_SIZE\<close> to each side of the handle's corner or edge midpoint
  (side \<open>2 * HANDLE_SIZE\<close>).  So a pointer-down in Crop mode starts a resizing action with
  that handle exactly when the point lies in one of the eight regions; a point in none of
  them and strictly inside the rectangle starts a moving action; any other point, and any
  point when there is no rectangle, starts a fresh drawing action.
\<close>

theorem hit_test_classification:
  "getCropHandle p r
     = find (\<lambda>h. in_open_square (2 * HANDLE_SIZE) (handleCentre h r) p) handleOrder
   \<and> ((getCropHandle p r \<noteq> None)
        = list_ex (\<lambda>h. in_open_square (2 * HANDLE_SIZE) (handleCentre h r) p) handleOrder)
   \<and> (editMode s = Crop \<and> canvas s \<noteq> None \<and> cropRect s = Some r
        \<and> getCropHandle p r = Some h
      \<longrightarrow> handleCropMouseDown p s
            = s\<lparr>cropAction := Some \<lparr>atype = resizing, handle = Some h, startX = px p,
                                     startY = py p, startRect = Some r\<rparr>\<rparr>)
   \<and> (editMode s = Crop \<and> canvas s \<noteq> None \<and> cropRect s = Some r
        \<and> getCropHandle p r = None \<and> strictly_inside p r
      \<longrightarrow> handleCropMouseDown p s
            = s\<lparr>cropAction := Some \<lparr>atype = moving, handle = None, startX = px p,
                                     startY = py p, startRect = Some r\<rparr>\<rparr>)
   \<and> (editMode s = Crop \<and> canvas s \<noteq> None
        \<and> (cropRect s = None
             \<or> cropRect s = Some r \<and> getCropHandle p r = None \<and> \<not> strictly_inside p r)
      \<longrightarrow> handleCropMouseDown p s
            = s\<lparr>cropAction := Some \<lparr>atype = drawing, handle = None, startX = px p,
                                     startY = py p, startRect = None\<rparr>\<rparr>)"
proof (intro conjI impI)
  show "getCropHandle p r
     = find (\<lambda>h. in_open_square (2 * HANDLE_SIZE) (handleCentre h r) p) handleOrder"
    by (rule getCropHandle_find)
  show "(getCropHandle p r \<noteq> None)
        = list_ex (\<lambda>h. in_open_square (2 * HANDLE_SIZE) (handleCentre h r) p) handleOrder"
    unfolding getCropHandle_find by (auto simp: find_None_iff list_ex_iff)
next
  assume "editMode s = Crop \<and> canvas s \<noteq> None \<and> cropRect s = Some r
        \<and> getCropHandle p r = Some h"
  then show "handleCropMouseDown p s
            = s\<lparr>cropAction := Some \<lparr>atype = resizing, handle = Some h, startX = px p,
                                     startY = py p, startRect = Some r\<rparr>\<rparr>"
    by (simp add: handleCropMouseDown_cases)
next
  assume "editMode s = Crop \<and> canvas s \<noteq> None \<and> cropRect s = Some r
        \<and> getCropHandle p r = None \<and> strictly_inside p r"
  then show "handleCropMouseDown p s
            = s\<lparr>cropAction := Some \<lparr>atype = moving, handle = None, startX = px p,
                                     startY = py p, startRect = Some r\<rparr>\<rparr>"
    by (simp add: handleCropMouseDown_cases)
next
  assume "editMode s = Crop \<and> canvas s \<noteq> None
        \<and> (cropRect s = None
             \<or> cropRect s = Some r \<and> getCropHandle p r = None \<and> \<not> strictly_inside p r)"
  then show "handleCropMouseDown p s
            = s\<lparr>cropAction := Some \<lparr>atype = drawing, handle = None, startX = px p,
                                     startY = py p, startRect = None\<rparr>\<rparr>"
    by (auto simp: handleCropMouseDown_cases)
qed

lemma getCropHandle_samples:
  "getCropHandle (pt 108 108) (rect 100 100 100 100) = Some ''tl''"
  "getCropHandle (pt 150 150) (rect 100 100 100 100) = None"
  "getCropHandle (pt 300 300) (rect 100 100 100 100) = None"
  by (simp_all add: getCropHandle_def HANDLE_SIZE_def pt_def rect_def Let_def)

theorem hit_test_classification_witness:
  "handleCropMouseDown (pt 108 108) (cropping (rect 100 100 100 100) tile)
     = (cropping (rect 100 100 100 100) tile)
         \<lparr>cropAction := Some \<lparr>atype = resizing, handle = Some ''tl'', startX = 108,
                               startY = 108, startRect = Some (rect 100 100 100 100)\<rparr>\<rparr>
   \<and> handleCropMouseDown (pt 150 150) (cropping (rect 100 100 100 100) tile)
     = (cropping (rect 100 100 100 100) tile)
         \<lparr>cropAction := Some \<lparr>atype = moving, handle = None, startX = 150,
                               startY = 150, startRect = Some (rect 100 100 100 100)\<rparr>\<rparr>
   \<and> handleCropMouseDown (pt 300 300) (cropping (rect 100 100 100 100) tile)
     = (cropping (rect 100 100 100 100) tile)
         \<lparr>cropAction := Some \<lparr>atype = drawing, handle = None, startX = 300,
                               startY = 300, startRect = None\<rparr>\<rparr>"
  using hit_test_classification
          [where p = "pt 108 108" and r = "rect 100 100 100 100" and h = "''tl''"
             and s = "cropping (rect 100 100 100 100) tile"]
        hit_test_classification
          [where p = "pt 150 150" and r = "rect 100 100 100 100" and h = "''tl''"
             and s = "cropping (rect 100 100 100 100) tile"]
        hit_test_classification
          [where p = "pt 300 300" and r = "rect 100 100 100 100" and h = "''tl''"
             and s = "cropping (rect 100 100 100 100) tile"]
  by (simp add: getCropHandle_samples)
     (simp add: cropping_def loaded_def strictly_inside_def pt_def rect_def)

theorem hit_region_side_counterexample:
  "getCropHandle (pt 108 108) (rect 100 100 100 100) = Some ''tl''
   \<and> \<not> in_some_handle_square HANDLE_SIZE (rect 100 100 100 100) (pt 108 108)
   \<and> strictly_inside (pt 108 108) (rect 100 100 100 100)
   \<and> map_option atype
        (cropAction (handleCropMouseDown (pt 108 108) (cropping (rect 100 100 100 100) tile)))
       = Some resizing"
proof -
  have "\<not> in_some_handle_square HANDLE_SIZE (rect 100 100 100 100) (pt 108 108)"
    by (simp add: in_some_handle_square_def handleOrder_def in_closed_square_def
                  handleCentre_def str_includes_def HANDLE_SIZE_def pt_def rect_def)
  moreover have "strictly_inside (pt 108 108) (rect 100 100 100 100)"
    by (simp add: strictly_inside_def pt_def rect_def)
  moreover have "map_option atype
        (cropAction (handleCropMouseDown (pt 108 108) (cropping (rect 100 100 100 100) tile)))
       = Some resizing"
    by (simp add: handleCropMouseDown_cases cropping_def loaded_def getCropHandle_samples)
  ultimately show ?thesis
    by (simp add: getCropHandle_samples)
qed

subsection \<open>Restoring and erasing\<close>

lemma drawLine_restore_no_original:
  assumes "editMode s = Restore" and "originalImage s = None"
  shows "drawLine P x0 y0 x1 y1 s = s"
  using assms by (simp add: drawLine_def split: option.splits)

lemma startDrawing_restore_no_original:
  assumes "editMode s = Restore" and "originalImage s = None"
  shows "startDrawing P e s =
           s\<lparr>isDrawing := True,
              lastPoint := (case canvas s of None \<Rightarrow> lastPoint s | Some c \<Rightarrow> Some e)\<rparr>"
  using assms
  by (simp add: startDrawing_def getMousePos_def drawLine_restore_no_original Let_def
           split: option.splits)

lemma draw_restore_no_original:
  assumes "editMode s = Restore" and "originalImage s = None"
  shows "\<exists>l. draw P e s = s\<lparr>lastPoint := l\<rparr>"
proof -
  have "s = s\<lparr>lastPoint := lastPoint s\<rparr>" by simp
  moreover have "draw P e s = s \<or> draw P e s = s\<lparr>lastPoint := Some e\<rparr>"
    using assms
    by (simp add: draw_def getMousePos_def drawLine_restore_no_original split: option.splits)
  ultimately show ?thesis by metis
qed

lemma moves_restore_no_original:
  assumes "editMode t = Restore" and "originalImage t = None"
  shows "\<exists>l. foldl (\<lambda>t m. draw P m t) t es = t\<lparr>lastPoint := l\<rparr>"
  using assms
proof (induction es arbitrary: t)
  case Nil
  have "t = t\<lparr>lastPoint := lastPoint t\<rparr>" by simp
  then show ?case by (metis foldl_Nil)
next
  case (Cons m es)
  from Cons.prems obtain l where l: "draw P m t = t\<lparr>lastPoint := l\<rparr>"
    using draw_restore_no_original by blast
  from Cons.prems obtain l' where
    "foldl (\<lambda>t m. draw P m t) (t\<lparr>lastPoint := l\<rparr>) es = t\<lparr>lastPoint := l\<rparr>\<lparr>lastPoint := l'\<rparr>"
    using Cons.IH[of "t\<lparr>lastPoint := l\<rparr>"] by auto
  then have "foldl (\<lambda>t m. draw P m t) t (m # es) = t\<lparr>lastPoint := l'\<rparr>"
    by (simp add: l)
  then show ?case by blast
qed

lemma strokeMoves_restore_no_original:
  assumes "editMode s = Restore" and "originalImage s = None"
  shows "\<exists>l. strokeMoves P e es s = s\<lparr>isDrawing := True, lastPoint := l\<rparr>"
proof -
  let ?t = "startDrawing P e s"
  have t: "?t = s\<lparr>isDrawing := True,
              lastPoint := (case canvas s of None \<Rightarrow> lastPoint s | Some c \<Rightarrow> Some e)\<rparr>"
    using assms by (rule startDrawing_restore_no_original)
  with assms have "editMode ?t = Restore" and "originalImage ?t = None" by simp_all
  then obtain l where "foldl (\<lambda>t m. draw P m t) ?t es = ?t\<lparr>lastPoint := l\<rparr>"
    using moves_restore_no_original by blast
  then have "strokeMoves P e es s = s\<lparr>isDrawing := True, lastPoint := l\<rparr>"
    by (simp add: strokeMoves_def t)
  then show ?thesis by blast
qed

text \<open>
  C8.  In Restore mode with no original image loaded, \<open>drawLine\<close> returns before it touches
  the canvas: the state is unchanged by a segment, and the canvas is unchanged by a
  pointer-down, a pointer-move and a whole sequence of them.  The three handlers have no
  exception outcome.
\<close>

theorem restore_without_original_is_noop:
  "editMode s = Restore \<and> originalImage s = None
   \<longrightarrow> drawLine P x0 y0 x1 y1 s = s
       \<and> canvas (startDrawing P e s) = canvas s
       \<and> canvas (draw P e s) = canvas s
       \<and> canvas (strokeMoves P e es s) = canvas s"
proof (intro impI conjI)
  assume a: "editMode s = Restore \<and> originalImage s = None"
  then show "drawLine P x0 y0 x1 y1 s = s"
    by (simp add: drawLine_restore_no_original)
  from a show "canvas (startDrawing P e s) = canvas s"
    by (simp add: startDrawing_restore_no_original)
  from a obtain l where "draw P e s = s\<lparr>lastPoint := l\<rparr>"
    using draw_restore_no_original by blast
  then show "canvas (draw P e s) = canvas s" by simp
  from a obtain l where "strokeMoves P e es s = s\<lparr>isDrawing := True, lastPoint := l\<rparr>"
    using strokeMoves_restore_no_original by blast
  then show "canvas (strokeMoves P e es s) = canvas s" by simp
qed

theorem restore_without_original_is_noop_witness:
  "drawLine halfPlatform 0 0 1 1 ((loaded tile)\<lparr>editMode := Restore, originalImage := None\<rparr>)
     = (loaded tile)\<lparr>editMode := Restore, originalImage := None\<rparr>
   \<and> canvas (strokeMoves halfPlatform (pt 0 0) [pt 1 0, pt 1 1]
               ((loaded tile)\<lparr>editMode := Restore, originalImage := None\<rparr>))
     = Some tile"
  using restore_without_original_is_noop
          [of "(loaded tile)\<lparr>editMode := Restore, originalImage := None\<rparr>"
              halfPlatform 0 0 1 1 "pt 0 0" "[pt 1 0, pt 1 1]"]
  by (simp add: loaded_def)

lemma destination_out_alpha: "alpha (destination_out k p) \<le> alpha p"
proof -
  have "(alpha p * (255 - min k 255) + 127) div 255 \<le> (alpha p * 255 + 127) div 255"
    by (intro div_le_mono add_le_mono mult_le_mono) simp_all
  also have "\<dots> = alpha p"
    by simp
  finally show ?thesis by (simp add: destination_out_def)
qed

lemma destination_out_transparent: "alpha p = 0 \<Longrightarrow> destination_out k p = p"
  by (simp add: destination_out_def)

lemma destination_out_uncovered: "destination_out 0 p = p"
  by (simp add: destination_out_def)

lemma stroke_destination_out_nth:
  "k < length (data c) \<Longrightarrow>
     data (stroke_destination_out P x0 y0 x1 y1 w c) ! k
       = destination_out (strokeCoverage P x0 y0 x1 y1 w (k mod width c) (k div width c))
           (data c ! k)"
  by (simp add: stroke_destination_out_def)

lemma stroke_destination_out_shape:
  "width (stroke_destination_out P x0 y0 x1 y1 w c) = width c"
  "height (stroke_destination_out P x0 y0 x1 y1 w c) = height c"
  "length (data (stroke_destination_out P x0 y0 x1 y1 w c)) = length (data c)"
  by (simp_all add: stroke_destination_out_def)

text \<open>
  C9.  In Erase mode \<open>drawLine\<close> composites the stroke with \<open>destination-out\<close>.  Whatever
  the rasteriser makes of the stroke, no cell's alpha grows; after a second stroke (the
  same or any other) each alpha is at most what the first stroke left; a cell of alpha 0
  is left exactly as it was, and a stroke that covers only cells of alpha 0 leaves the
  whole canvas as it was.
\<close>

theorem erase_alpha_non_increasing:
  "(editMode s = Erase \<and> canvas s = Some c
      \<longrightarrow> drawLine P x0 y0 x1 y1 s
            = s\<lparr>canvas := Some (stroke_destination_out P x0 y0 x1 y1 (brushSize s) c)\<rparr>)
   \<and> (k < length (data c)
      \<longrightarrow> alpha (data (stroke_destination_out P x0 y0 x1 y1 w c) ! k) \<le> alpha (data c ! k)
          \<and> alpha (data (stroke_destination_out P x2 y2 x3 y3 w'
                           (stroke_destination_out P x0 y0 x1 y1 w c)) ! k)
              \<le> alpha (data (stroke_destination_out P x0 y0 x1 y1 w c) ! k)
          \<and> (alpha (data c ! k) = 0
              \<longrightarrow> data (stroke_destination_out P x0 y0 x1 y1 w c) ! k = data c ! k))
   \<and> ((\<forall>i < length (data c).
          alpha (data c ! i) = 0
          \<or> strokeCoverage P x0 y0 x1 y1 w (i mod width c) (i div width c) = 0)
      \<longrightarrow> stroke_destination_out P x0 y0 x1 y1 w c = c)"
proof (intro conjI impI)
  assume "editMode s = Erase \<and> canvas s = Some c"
  then show "drawLine P x0 y0 x1 y1 s
            = s\<lparr>canvas := Some (stroke_destination_out P x0 y0 x1 y1 (brushSize s) c)\<rparr>"
    by (simp add: drawLine_def)
next
  assume k: "k < length (data c)"
  then show "alpha (data (stroke_destination_out P x0 y0 x1 y1 w c) ! k) \<le> alpha (data c ! k)"
    by (simp add: stroke_destination_out_nth destination_out_alpha)
  from k have "k < length (data (stroke_destination_out P x0 y0 x1 y1 w c))"
    by (simp add: stroke_destination_out_shape)
  then show "alpha (data (stroke_destination_out P x2 y2 x3 y3 w'
                           (stroke_destination_out P x0 y0 x1 y1 w c)) ! k)
              \<le> alpha (data (stroke_destination_out P x0 y0 x1 y1 w c) ! k)"
    by (simp only: stroke_destination_out_nth destination_out_alpha)
  assume "alpha (data c ! k) = 0"
  with k show "data (stroke_destination_out P x0 y0 x1 y1 w c) ! k = data c ! k"
    by (simp add: stroke_destination_out_nth destination_out_transparent)
next
  assume a: "\<forall>i < length (data c).
          alpha (data c ! i) = 0
          \<or> strokeCoverage P x0 y0 x1 y1 w (i mod width c) (i div width c) = 0"
  have "data (stroke_destination_out P x0 y0 x1 y1 w c) = data c"
  proof (rule nth_equalityI)
    show "length (data (stroke_destination_out P x0 y0 x1 y1 w c)) = length (data c)"
      by (simp add: stroke_destination_out_shape)
    fix i assume "i < length (data (stroke_destination_out P x0 y0 x1 y1 w c))"
    then have i: "i < length (data c)" by (simp add: stroke_destination_out_shape)
    with a show "data (stroke_destination_out P x0 y0 x1 y1 w c) ! i = data c ! i"
      by (auto simp: stroke_destination_out_nth destination_out_transparent
                     destination_out_uncovered)
  qed
  then show "stroke_destination_out P x0 y0 x1 y1 w c = c"
    by (simp add: stroke_destination_out_def)
qed

theorem erase_alpha_non_increasing_witness:
  "drawLine halfPlatform 0 0 1 1 (loaded (veilDot 200))
     = (loaded (veilDot 200))\<lparr>canvas := Some (veilDot 100)\<rparr>
   \<and> stroke_destination_out halfPlatform 0 0 1 1 40 (veilDot 100) = veilDot 50
   \<and> stroke_destination_out halfPlatform 0 0 1 1 40 (veilDot 0) = veilDot 0"
  using erase_alpha_non_increasing
          [where s = "loaded (veilDot 200)" and c = "veilDot 200" and P = halfPlatform
             and k = 0 and ?x0.0 = 0 and ?y0.0 = 0 and ?x1.0 = 1 and ?y1.0 = 1 and w = 40]
        erase_alpha_non_increasing
          [where s = "loaded (veilDot 0)" and c = "veilDot 0" and P = halfPlatform and k = 0
             and ?x0.0 = 0 and ?y0.0 = 0 and ?x1.0 = 1 and ?y1.0 = 1 and w = 40]
  by (simp add: loaded_def veilDot_def veil_def halfPlatform_def stroke_destination_out_def
                destination_out_def)

subsection \<open>A stroke and its history entry\<close>

lemma repaint_wf: "wf_image c \<Longrightarrow> wf_image (repaint f c)"
  by (simp add: wf_image_def repaint_def)

lemma stroke_destination_out_wf:
  "wf_image c \<Longrightarrow> wf_image (stroke_destination_out P x0 y0 x1 y1 w c)"
  by (simp add: wf_image_def stroke_destination_out_shape)

lemma drawLine_keeps:
  assumes "keeps_history s t"
  shows "keeps_history s (drawLine P x0 y0 x1 y1 t)"
    and "isDrawing (drawLine P x0 y0 x1 y1 t) = isDrawing t"
  using assms
  by (auto simp: keeps_history_def drawLine_def repaint_wf stroke_destination_out_wf
           split: option.splits)

lemma startDrawing_keeps:
  assumes "keeps_history s t" and "editMode s \<noteq> Crop"
  shows "keeps_history s (startDrawing P e t)" and "isDrawing (startDrawing P e t)"
proof -
  let ?t1 = "t\<lparr>isDrawing := True, lastPoint := Some e\<rparr>"
  from assms(1) have k: "keeps_history s ?t1" by (simp add: keeps_history_def)
  from assms have eq: "startDrawing P e t = drawLine P (px e) (py e) (px e) (py e) ?t1"
    by (auto simp: startDrawing_def getMousePos_def keeps_history_def split: option.splits)
  show "keeps_history s (startDrawing P e t)"
    unfolding eq using k by (rule drawLine_keeps)
  show "isDrawing (startDrawing P e t)"
    unfolding eq using k by (simp add: drawLine_keeps)
qed

lemma draw_keeps:
  assumes "keeps_history s t"
  shows "keeps_history s (draw P m t)" and "isDrawing (draw P m t) = isDrawing t"
proof -
  have frame: "keeps_history s (u\<lparr>lastPoint := l\<rparr>) = keeps_history s u" for u l
    by (simp add: keeps_history_def)
  from assms show "keeps_history s (draw P m t)"
    by (auto simp: draw_def frame drawLine_keeps split: option.splits)
  from assms show "isDrawing (draw P m t) = isDrawing t"
    by (auto simp: draw_def drawLine_keeps split: option.splits)
qed

lemma moves_keep:
  assumes "keeps_history s t"
  shows "keeps_history s (foldl (\<lambda>t m. draw P m t) t es)
         \<and> isDrawing (foldl (\<lambda>t m. draw P m t) t es) = isDrawing t"
  using assms
proof (induction es arbitrary: t)
  case Nil
  then show ?case by simp
next
  case (Cons m es)
  from Cons.prems have "keeps_history s (draw P m t)" and "isDrawing (draw P m t) = isDrawing t"
    by (rule draw_keeps)+
  with Cons.IH[of "draw P m t"] show ?case by simp
qed

lemma keeps_history_refl:
  "canvas s = Some c \<Longrightarrow> wf_image c \<Longrightarrow> keeps_history s s"
  by (simp add: keeps_history_def)

lemma strokeMoves_keeps:
  assumes "editMode s \<noteq> Crop" and "canvas s = Some c" and "wf_image c"
  shows "keeps_history s (strokeMoves P e es s)" and "isDrawing (strokeMoves P e es s)"
proof -
  from assms have "keeps_history s s" by (simp add: keeps_history_refl)
  then have "keeps_history s (startDrawing P e s)" and "isDrawing (startDrawing P e s)"
    using assms(1) by (rule startDrawing_keeps)+
  then show "keeps_history s (strokeMoves P e es s)" and "isDrawing (strokeMoves P e es s)"
    using moves_keep[of s "startDrawing P e s" P es] by (simp_all add: strokeMoves_def)
qed

lemma stopDrawing_push:
  assumes "keeps_history s t" and "isDrawing t"
    and "0 \<le> historyIndex s" and "historyIndex s < int (length (history s))"
    and "canvas t = Some c'"
  shows "stopDrawing t
           = (None, t\<lparr>history := take (nat (historyIndex s) + 1) (history s) @ [c'],
                       historyIndex := historyIndex s + 1,
                       isDrawing := False, lastPoint := None\<rparr>)"
proof -
  from assms have "saveToHistory t
      = (None, t\<lparr>history := take (nat (historyIndex t) + 1) (history t) @ [c'],
                  historyIndex := historyIndex t + 1\<rparr>)"
    by (intro saveToHistory_at_cursor) (simp_all add: keeps_history_def)
  with assms show ?thesis
    by (simp add: stopDrawing_def keeps_history_def)
qed

lemma stroke_result:
  assumes "editMode s \<noteq> Crop" and "canvas s = Some c" and "wf_image c"
    and "0 \<le> historyIndex s" and "historyIndex s < int (length (history s))"
    and "canvas (strokeMoves P e es s) = Some c'"
  shows "stroke P e es s
           = (None, (strokeMoves P e es s)
                      \<lparr>history := take (nat (historyIndex s) + 1) (history s) @ [c'],
                        historyIndex := historyIndex s + 1,
                        isDrawing := False, lastPoint := None\<rparr>)"
proof -
  from assms(1-3) have "keeps_history s (strokeMoves P e es s)"
    and "isDrawing (strokeMoves P e es s)"
    by (rule strokeMoves_keeps)+
  then show ?thesis
    unfolding stroke_def using assms(4-6) by (rule stopDrawing_push)
qed

text \<open>
  C10 (amended).  A brush stroke outside Crop mode (pointer-down, any pointer-moves,
  pointer-up or pointer-leave) on a loaded session pushes exactly one history entry, the
  snapshot of the canvas at the end of the stroke, whether or not the stroke changed a
  pixel: the history becomes the entries up to the old cursor followed by the snapshot,
  the cursor moves onto it, \<open>canUndo\<close> holds, a second pointer-up or pointer-leave
  pushes nothing, and the redraw effect that follows puts the pushed snapshot back on the
  canvas through the bitmap's store.  The
  history is one entry longer than before when the cursor was on the last entry; entries
  beyond the cursor are dropped.  After a Restore stroke with no original image the pushed
  snapshot is the canvas as it was, and it equals the entry before it when the canvas
  showed that entry.
\<close>

theorem stroke_pushes_one_entry:
  assumes "editMode s \<noteq> Crop" and "canvas s = Some c" and "wf_image c"
    and "0 \<le> historyIndex s" and "historyIndex s < int (length (history s))"
  shows "fst (stroke P e es s) = None
    \<and> butlast (history (snd (stroke P e es s))) = take (nat (historyIndex s) + 1) (history s)
    \<and> Some (last (history (snd (stroke P e es s)))) = canvas (strokeMoves P e es s)
    \<and> canvas (snd (stroke P e es s)) = canvas (strokeMoves P e es s)
    \<and> length (history (snd (stroke P e es s))) = nat (historyIndex s) + 2
    \<and> historyIndex (snd (stroke P e es s)) = historyIndex s + 1
    \<and> canUndo (snd (stroke P e es s))
    \<and> stopDrawing (snd (stroke P e es s)) = (None, snd (stroke P e es s))
    \<and> redrawCanvas P (snd (stroke P e es s))
        = (snd (stroke P e es s))
            \<lparr>canvas := Some (onCanvas P (last (history (snd (stroke P e es s)))))\<rparr>
    \<and> (historyIndex s = int (length (history s)) - 1
        \<longrightarrow> length (history (snd (stroke P e es s))) = length (history s) + 1)
    \<and> (editMode s = Restore \<and> originalImage s = None
        \<longrightarrow> last (history (snd (stroke P e es s))) = c
          \<and> (history s ! nat (historyIndex s) = c
              \<longrightarrow> history (snd (stroke P e es s)) ! (nat (historyIndex s) + 1)
                    = history (snd (stroke P e es s)) ! nat (historyIndex s)))"
proof -
  let ?t = "strokeMoves P e es s"
  let ?n = "nat (historyIndex s)"
  from assms(1-3) have k: "keeps_history s ?t" and d: "isDrawing ?t"
    by (rule strokeMoves_keeps)+
  from k obtain c' where c': "canvas ?t = Some c'"
    by (auto simp: keeps_history_def split: option.splits)
  let ?H = "take (?n + 1) (history s) @ [c']"
  have r: "stroke P e es s
             = (None, ?t\<lparr>history := ?H, historyIndex := historyIndex s + 1,
                          isDrawing := False, lastPoint := None\<rparr>)"
    using assms c' by (rule stroke_result)
  from assms(4,5) have lenT: "length (take (?n + 1) (history s)) = ?n + 1"
    by simp
  have restore: "c' = c" if "editMode s = Restore \<and> originalImage s = None"
  proof -
    from that obtain l where "?t = s\<lparr>isDrawing := True, lastPoint := l\<rparr>"
      using strokeMoves_restore_no_original by blast
    then have "canvas ?t = canvas s" by simp
    with c' assms(2) show ?thesis by simp
  qed
  have prev: "?H ! ?n = history s ! ?n"
    using lenT by (simp add: nth_append del: length_take)
  have new: "?H ! (?n + 1) = c'"
    using lenT by (metis nth_append_length)
  let ?u = "?t\<lparr>history := ?H, historyIndex := historyIndex s + 1,
                 isDrawing := False, lastPoint := None\<rparr>"
  have f1: "butlast (history ?u) = take (?n + 1) (history s)"
    by simp
  have f2: "Some (last (history ?u)) = canvas ?t"
    by (simp add: c')
  have f3: "canvas ?u = canvas ?t"
    by simp
  have f4: "length (history ?u) = ?n + 2"
    using lenT by (simp del: length_take)
  have f5: "historyIndex ?u = historyIndex s + 1"
    by simp
  have f6: "canUndo ?u"
    using assms(4) by (simp add: canUndo_def)
  have f7: "stopDrawing ?u = (None, ?u)"
    by (simp add: stopDrawing_def)
  from k c' have wfc: "wf_image c'"
    by (simp add: keeps_history_def)
  from assms(4) have "js_index ?H (historyIndex s + 1) = Some (?H ! (?n + 1))"
    using f4 by (simp add: js_index_def nat_add_distrib del: length_take length_append)
  with new have "js_index (history ?u) (historyIndex ?u) = Some c'"
    by simp
  moreover from k assms(1) have "editMode ?u \<noteq> Crop"
    by (simp add: keeps_history_def)
  ultimately have f10: "redrawCanvas P ?u = ?u\<lparr>canvas := Some (onCanvas P (last (history ?u)))\<rparr>"
    using wfc c' redrawCanvas_entry[of ?u c' c' P] by simp
  have f8: "historyIndex s = int (length (history s)) - 1
              \<longrightarrow> length (history ?u) = length (history s) + 1"
    using f4 assms(4) by auto
  have f9: "editMode s = Restore \<and> originalImage s = None
              \<longrightarrow> last (history ?u) = c
                \<and> (history s ! ?n = c \<longrightarrow> history ?u ! (?n + 1) = history ?u ! ?n)"
    using restore prev new by auto
  show ?thesis
    unfolding r fst_conv snd_conv
    using f1 f2 f3 f4 f5 f6 f7 f8 f9 f10 by blast
qed

lemma wf_tile: "wf_image tile"
  by (simp add: wf_image_def tile_def)

theorem stroke_pushes_one_entry_witness:
  "fst (stroke halfPlatform (pt 0 0) [pt 1 1]
          ((loaded tile)\<lparr>editMode := Restore, originalImage := None\<rparr>)) = None
   \<and> length (history (snd (stroke halfPlatform (pt 0 0) [pt 1 1]
          ((loaded tile)\<lparr>editMode := Restore, originalImage := None\<rparr>)))) = 2
   \<and> last (history (snd (stroke halfPlatform (pt 0 0) [pt 1 1]
          ((loaded tile)\<lparr>editMode := Restore, originalImage := None\<rparr>)))) = tile
   \<and> canUndo (snd (stroke halfPlatform (pt 0 0) [pt 1 1]
          ((loaded tile)\<lparr>editMode := Restore, originalImage := None\<rparr>)))"
  using stroke_pushes_one_entry
          [of "(loaded tile)\<lparr>editMode := Restore, originalImage := None\<rparr>" tile
              halfPlatform "pt 0 0" "[pt 1 1]"]
  by (simp add: loaded_def wf_tile)

theorem stroke_after_undo_counterexample:
  "length (history ((loaded (dot 1))\<lparr>history := [dot 1, dot 2, dot 3]\<rparr>)) = 3
   \<and> historyIndex ((loaded (dot 1))\<lparr>history := [dot 1, dot 2, dot 3]\<rparr>) = 0
   \<and> length (history (snd (stroke halfPlatform (pt 0 0) []
                               ((loaded (dot 1))\<lparr>history := [dot 1, dot 2, dot 3]\<rparr>)))) = 2"
proof -
  let ?s = "(loaded (dot 1))\<lparr>history := [dot 1, dot 2, dot 3]\<rparr>"
  have s: "editMode ?s \<noteq> Crop" "canvas ?s = Some (dot 1)" "wf_image (dot 1)"
    "0 \<le> historyIndex ?s" "historyIndex ?s < int (length (history ?s))"
    by (simp_all add: loaded_def wf_dot)
  then have "keeps_history ?s (strokeMoves halfPlatform (pt 0 0) [] ?s)"
    by (intro strokeMoves_keeps)
  then obtain c' where "canvas (strokeMoves halfPlatform (pt 0 0) [] ?s) = Some c'"
    by (auto simp: keeps_history_def split: option.splits)
  with s have "stroke halfPlatform (pt 0 0) [] ?s
           = (None, (strokeMoves halfPlatform (pt 0 0) [] ?s)
                      \<lparr>history := take (nat (historyIndex ?s) + 1) (history ?s) @ [c'],
                        historyIndex := historyIndex ?s + 1,
                        isDrawing := False, lastPoint := None\<rparr>)"
    by (rule stroke_result)
  then show ?thesis by (simp add: loaded_def)
qed

subsection \<open>Applying the crop\<close>

lemma to_long_in_range:
  assumes "\<bar>v\<bar> < 2147483648"
  shows "to_long v = Inr (if v < 0 then \<lceil>v\<rceil> else \<lfloor>v\<rfloor>)"
proof (cases "v < 0")
  case True
  with assms have "- 2147483648 < v" by simp
  then have "- 2147483648 < \<lceil>v\<rceil>" by (simp add: less_ceiling_iff)
  moreover from True have "\<lceil>v\<rceil> \<le> 0" by (simp add: ceiling_le_zero)
  ultimately show ?thesis using True by (simp add: to_long_def)
next
  case False
  with assms have "v < 2147483648" by simp
  then have "\<lfloor>v\<rfloor> < 2147483648" by (simp add: floor_less_iff)
  moreover from False have "0 \<le> \<lfloor>v\<rfloor>" by simp
  ultimately show ?thesis using False by (simp add: to_long_def)
qed

lemma to_long_zero: "to_long 0 = Inr 0"
  by (simp add: to_long_def)

lemma getImageData_js_zero_area:
  assumes "sw = 0 \<or> sh = 0"
  shows "getImageData_js c sx sy sw sh = Inl IndexSizeError
         \<or> getImageData_js c sx sy sw sh = Inl TypeError"
proof -
  have e: "x = IndexSizeError \<or> x = TypeError" for x by (cases x) simp_all
  from assms show ?thesis
    by (auto simp: getImageData_js_def getImageData_def to_long_zero e split: sum.splits)
qed

lemma handleApplyCrop_zero_area:
  assumes "cropRect s = Some r" and "rwidth r = 0 \<or> rheight r = 0"
  shows "snd (handleApplyCrop P s) = s"
    and "canvas s \<noteq> None \<and> originalImage s \<noteq> None
         \<longrightarrow> fst (handleApplyCrop P s) = Some IndexSizeError
             \<or> fst (handleApplyCrop P s) = Some TypeError"
proof -
  have "snd (handleApplyCrop P s) = s
        \<and> (canvas s \<noteq> None \<and> originalImage s \<noteq> None
            \<longrightarrow> fst (handleApplyCrop P s) = Some IndexSizeError
                \<or> fst (handleApplyCrop P s) = Some TypeError)"
  proof (cases "canvas s")
    case None
    then show ?thesis by (simp add: handleApplyCrop_def)
  next
    case (Some c)
    show ?thesis
    proof (cases "originalImage s")
      case None
      with Some assms(1) show ?thesis by (simp add: handleApplyCrop_def)
    next
      case (Some orig)
      from assms(2) obtain e where
        "getImageData_js c (rx r) (ry r) (rwidth r) (rheight r) = Inl e"
        and "e = IndexSizeError \<or> e = TypeError"
        using getImageData_js_zero_area[of "rwidth r" "rheight r" c "rx r" "ry r"] by auto
      with Some \<open>canvas s = Some c\<close> assms(1) show ?thesis
        by (auto simp: handleApplyCrop_def)
    qed
  qed
  then show "snd (handleApplyCrop P s) = s"
    and "canvas s \<noteq> None \<and> originalImage s \<noteq> None
         \<longrightarrow> fst (handleApplyCrop P s) = Some IndexSizeError
             \<or> fst (handleApplyCrop P s) = Some TypeError"
    by simp_all
qed

lemma canvas_dim_floor:
  assumes "1 \<le> v" and "v < 2147483648"
  shows "canvas_dim d v = nat \<lfloor>v\<rfloor>" and "0 < nat \<lfloor>v\<rfloor>"
proof -
  from assms have lo: "1 \<le> \<lfloor>v\<rfloor>" by (simp add: le_floor_iff)
  from assms have hi: "\<lfloor>v\<rfloor> < 2147483648" by (simp add: floor_less_iff)
  from lo hi have "\<lfloor>v\<rfloor> mod 4294967296 = \<lfloor>v\<rfloor>" by simp
  with assms lo hi show "canvas_dim d v = nat \<lfloor>v\<rfloor>"
    by (simp add: canvas_dim_def Let_def)
  from lo show "0 < nat \<lfloor>v\<rfloor>" by simp
qed

lemma getImageData_wf:
  assumes "getImageData c sx sy sw sh = Inr img"
  shows "wf_image img" and "width img = nat \<bar>sw\<bar>" and "height img = nat \<bar>sh\<bar>"
  using assms
  by (auto simp: getImageData_def wf_image_def Let_def split: if_splits)

lemma to_long_out_of_range:
  assumes "2147483648 \<le> v \<or> v \<le> - 2147483649"
  shows "to_long v = Inl TypeError"
proof (cases "v < 0")
  case True
  with assms have "v \<le> - 2147483649" by simp
  then have "\<lceil>v\<rceil> \<le> - 2147483649" by (simp add: ceiling_le_iff)
  with True show ?thesis by (simp add: to_long_def)
next
  case False
  with assms have "2147483648 \<le> v" by simp
  then have "2147483648 \<le> \<lfloor>v\<rfloor>" by (simp add: le_floor_iff)
  with False show ?thesis by (simp add: to_long_def)
qed

lemma to_long_error: "to_long v = Inl e \<Longrightarrow> e = TypeError"
  by (simp add: to_long_def Let_def split: if_splits)

lemma getImageData_js_out_of_range:
  assumes "to_long sx = Inl TypeError \<or> to_long sy = Inl TypeError
           \<or> to_long sw = Inl TypeError \<or> to_long sh = Inl TypeError"
  shows "getImageData_js c sx sy sw sh = Inl TypeError"
  using assms
  by (auto simp: getImageData_js_def dest: to_long_error split: sum.splits)

lemma handleApplyCrop_out_of_range:
  assumes "canvas s \<noteq> None" and "cropRect s = Some r" and "originalImage s \<noteq> None"
    and "2147483648 \<le> rx r \<or> rx r \<le> - 2147483649
         \<or> 2147483648 \<le> ry r \<or> ry r \<le> - 2147483649
         \<or> 2147483648 \<le> rwidth r \<or> rwidth r \<le> - 2147483649
         \<or> 2147483648 \<le> rheight r \<or> rheight r \<le> - 2147483649"
  shows "handleApplyCrop P s = (Some TypeError, s)"
proof -
  from assms(1,3) obtain c orig where c: "canvas s = Some c" and o: "originalImage s = Some orig"
    by auto
  from assms(4)
  have "to_long (rx r) = Inl TypeError \<or> to_long (ry r) = Inl TypeError
        \<or> to_long (rwidth r) = Inl TypeError \<or> to_long (rheight r) = Inl TypeError"
    using to_long_out_of_range[of "rx r"] to_long_out_of_range[of "ry r"]
      to_long_out_of_range[of "rwidth r"] to_long_out_of_range[of "rheight r"]
    by blast
  then have "getImageData_js c (rx r) (ry r) (rwidth r) (rheight r) = Inl TypeError"
    by (rule getImageData_js_out_of_range)
  with c o assms(2) show ?thesis by (simp add: handleApplyCrop_def)
qed

lemma handleApplyCrop_guard:
  assumes "canvas s = None \<or> cropRect s = None \<or> originalImage s = None"
  shows "handleApplyCrop P s = (None, s)"
  using assms by (auto simp: handleApplyCrop_def split: option.splits)

lemma handleApplyCrop_applied:
  assumes c: "canvas s = Some c" and r: "cropRect s = Some r" and o: "originalImage s = Some orig"
    and w: "1 \<le> rwidth r" "rwidth r < 2147483648"
    and h: "1 \<le> rheight r" "rheight r < 2147483648"
    and x: "\<bar>rx r\<bar> < 2147483648" and y: "\<bar>ry r\<bar> < 2147483648"
  shows "\<exists>img. getImageData_js c (rx r) (ry r) (rwidth r) (rheight r) = Inr img
           \<and> wf_image img
           \<and> width img = nat \<lfloor>rwidth r\<rfloor> \<and> height img = nat \<lfloor>rheight r\<rfloor>
           \<and> handleApplyCrop P s
               = (None, s\<lparr>originalImage :=
                             Some (repaint (croppedOriginalPixel P orig r)
                                     (blank (width img) (height img))),
                           canvas := Some (onCanvas P img),
                           history := slice0 (history s) (historyIndex s + 1) @ [onCanvas P img],
                           historyIndex := int (length (slice0 (history s) (historyIndex s + 1))),
                           cropRect := None, editMode := Erase\<rparr>)"
proof -
  let ?W = "\<lfloor>rwidth r\<rfloor>" and ?H = "\<lfloor>rheight r\<rfloor>"
  from w h have lw: "to_long (rwidth r) = Inr ?W" and lh: "to_long (rheight r) = Inr ?H"
    using to_long_in_range[of "rwidth r"] to_long_in_range[of "rheight r"] by simp_all
  from w h have pos: "1 \<le> ?W" "1 \<le> ?H" by (simp_all add: le_floor_iff)
  obtain ix iy where lx: "to_long (rx r) = Inr ix" and ly: "to_long (ry r) = Inr iy"
    using to_long_in_range[OF x] to_long_in_range[OF y] by simp
  from pos obtain img where g: "getImageData c ix iy ?W ?H = Inr img"
    by (auto simp: getImageData_def Let_def)
  then have wf: "wf_image img" and dims: "width img = nat ?W" "height img = nat ?H"
    using getImageData_wf[OF g] pos by simp_all
  have js: "getImageData_js c (rx r) (ry r) (rwidth r) (rheight r) = Inr img"
    by (simp add: getImageData_js_def lx ly lw lh g)
  from w h dims have cd: "canvas_dim 300 (rwidth r) = width img"
    "canvas_dim 150 (rheight r) = height img"
    by (simp_all add: canvas_dim_floor)
  let ?o = "repaint (croppedOriginalPixel P orig r) (blank (width img) (height img))"
  let ?s1 = "s\<lparr>originalImage := Some ?o, canvas := Some (onCanvas P img)\<rparr>"
  from wf have wf': "wf_image (onCanvas P img)" by (simp add: onCanvas_shape)
  have "saveToHistory ?s1
          = (None, ?s1\<lparr>history := slice0 (history ?s1) (historyIndex ?s1 + 1) @ [onCanvas P img],
                        historyIndex := int (length (slice0 (history ?s1) (historyIndex ?s1 + 1)))\<rparr>)"
    using wf' by (intro saveToHistory_wf) simp_all
  then have "handleApplyCrop P s
               = (None, s\<lparr>originalImage := Some ?o, canvas := Some (onCanvas P img),
                           history := slice0 (history s) (historyIndex s + 1) @ [onCanvas P img],
                           historyIndex := int (length (slice0 (history s) (historyIndex s + 1))),
                           cropRect := None, editMode := Erase\<rparr>)"
    using c r o wf
    by (simp add: handleApplyCrop_def js applyCrop_onload_def cd putImageData_blank)
  with js wf dims show ?thesis by blast
qed

subsection \<open>The dragged crop rectangle\<close>

lemma plain_shape:
  "width (plain w h v) = w" "height (plain w h v) = h"
  by (simp_all add: plain_def)

lemma redrawCanvas_keeps:
  "editMode (redrawCanvas P s) = editMode s"
  "history (redrawCanvas P s) = history s"
  "historyIndex (redrawCanvas P s) = historyIndex s"
  "cropRect (redrawCanvas P s) = cropRect s"
  "cropAction (redrawCanvas P s) = cropAction s"
  "originalImage (redrawCanvas P s) = originalImage s"
  by (simp_all add: redrawCanvas_def Let_def split: option.splits)

lemma redrawCanvas_canvas_size:
  assumes "map_option width (canvas s) = Some w" and "map_option height (canvas s) = Some h"
  shows "map_option width (canvas (redrawCanvas P s)) = Some w"
    and "map_option height (canvas (redrawCanvas P s)) = Some h"
  using assms
  by (auto simp: redrawCanvas_def Let_def repaint_def putImageData_def blank_def
           split: option.splits)

lemma handleCropMouseMove_moving:
  assumes "editMode s = Crop" and "canvas s \<noteq> None"
    and "cropAction s = Some a" and "atype a = moving" and "startRect a = Some sr"
  shows "handleCropMouseMove p s
           = s\<lparr>cropRect := Some (sr\<lparr>rx := rx sr + (px p - startX a),
                                     ry := ry sr + (py p - startY a)\<rparr>)\<rparr>"
  using assms by (auto simp: handleCropMouseMove_def getMousePos_def Let_def)

lemma cropDragged_state:
  "editMode (cropDragged P) = Crop"
  "cropRect (cropDragged P) = Some (rect 70 10 160 80)"
  "originalImage (cropDragged P) = Some (plain 200 100 90)"
  "history (cropDragged P) = [plain 200 100 90]"
  "historyIndex (cropDragged P) = 0"
  "map_option width (canvas (cropDragged P)) = Some 200"
  "map_option height (canvas (cropDragged P)) = Some 100"
proof -
  let ?t0 = "loaded (plain 200 100 90)"
  let ?t1 = "handleSetEditMode Crop ?t0"
  let ?t2 = "redrawCanvas P ?t1"
  let ?a = "\<lparr>atype = moving, handle = None, startX = 100, startY = 50,
              startRect = Some (rect 20 10 160 80)\<rparr>"
  let ?t3 = "handleCropMouseDown (pt 100 50) ?t2"
  let ?t4 = "handleCropMouseMove (pt 150 50) ?t3"
  let ?t5 = "redrawCanvas P ?t4"
  have t1: "?t1 = ?t0\<lparr>editMode := Crop, cropRect := Some (rect 20 10 160 80)\<rparr>"
    by (simp add: handleSetEditMode_def loaded_def plain_shape rect_def Let_def)
  have f2: "editMode ?t2 = Crop" "cropRect ?t2 = Some (rect 20 10 160 80)"
    "originalImage ?t2 = Some (plain 200 100 90)" "history ?t2 = [plain 200 100 90]"
    "historyIndex ?t2 = 0"
    unfolding redrawCanvas_keeps t1 by (simp_all add: loaded_def)
  have "map_option width (canvas ?t1) = Some 200" "map_option height (canvas ?t1) = Some 100"
    unfolding t1 by (simp_all add: loaded_def plain_shape)
  then have c2: "map_option width (canvas ?t2) = Some 200"
    "map_option height (canvas ?t2) = Some 100"
    by (rule redrawCanvas_canvas_size)+
  then have n2: "canvas ?t2 \<noteq> None" by auto
  have hit: "getCropHandle (pt 100 50) (rect 20 10 160 80) = None"
    by (simp add: getCropHandle_def HANDLE_SIZE_def pt_def rect_def Let_def)
  have ins: "strictly_inside (pt 100 50) (rect 20 10 160 80)"
    by (simp add: strictly_inside_def pt_def rect_def)
  have pp: "px (pt 100 50) = 100" "py (pt 100 50) = 50"
    by (simp_all add: pt_def)
  have t3: "?t3 = ?t2\<lparr>cropAction := Some ?a\<rparr>"
    unfolding handleCropMouseDown_cases[OF f2(1) n2, of "pt 100 50"]
    by (simp add: f2 hit ins pp)
  have "?t4 = ?t3\<lparr>cropRect := Some ((rect 20 10 160 80)
                  \<lparr>rx := rx (rect 20 10 160 80) + (px (pt 150 50) - startX ?a),
                    ry := ry (rect 20 10 160 80) + (py (pt 150 50) - startY ?a)\<rparr>)\<rparr>"
    by (rule handleCropMouseMove_moving) (simp_all add: t3 f2 n2)
  then have t4: "?t4 = ?t3\<lparr>cropRect := Some (rect 70 10 160 80)\<rparr>"
    by (simp add: rect_def pt_def)
  have f4: "editMode ?t4 = Crop" "cropRect ?t4 = Some (rect 70 10 160 80)"
    "originalImage ?t4 = Some (plain 200 100 90)" "history ?t4 = [plain 200 100 90]"
    "historyIndex ?t4 = 0"
    "map_option width (canvas ?t4) = Some 200" "map_option height (canvas ?t4) = Some 100"
    unfolding t4 by (simp_all add: t3 f2 c2)
  have c5: "map_option width (canvas ?t5) = Some 200"
    "map_option height (canvas ?t5) = Some 100"
    using f4(6,7) by (rule redrawCanvas_canvas_size)+
  show "editMode (cropDragged P) = Crop"
    "cropRect (cropDragged P) = Some (rect 70 10 160 80)"
    "originalImage (cropDragged P) = Some (plain 200 100 90)"
    "history (cropDragged P) = [plain 200 100 90]"
    "historyIndex (cropDragged P) = 0"
    "map_option width (canvas (cropDragged P)) = Some 200"
    "map_option height (canvas (cropDragged P)) = Some 100"
    by (simp_all add: cropDragged_def handleCropMouseUp_def redrawCanvas_keeps f4 c5)
qed

lemma handleApplyCrop_cropDragged:
  "fst (handleApplyCrop P (cropDragged P)) = None"
  "editMode (snd (handleApplyCrop P (cropDragged P))) = Erase"
  "cropRect (snd (handleApplyCrop P (cropDragged P))) = None"
  "length (history (snd (handleApplyCrop P (cropDragged P)))) = 2"
  "butlast (history (snd (handleApplyCrop P (cropDragged P)))) = [plain 200 100 90]"
  "historyIndex (snd (handleApplyCrop P (cropDragged P))) = 1"
  "map_option width (canvas (snd (handleApplyCrop P (cropDragged P)))) = Some 160"
  "map_option height (canvas (snd (handleApplyCrop P (cropDragged P)))) = Some 80"
  "width (last (history (snd (handleApplyCrop P (cropDragged P))))) = 160"
  "height (last (history (snd (handleApplyCrop P (cropDragged P))))) = 80"
proof -
  let ?s = "cropDragged P" and ?r = "rect 70 10 160 80"
  from cropDragged_state(6)[of P] obtain c where c: "canvas ?s = Some c" by auto
  obtain img where
    dims: "width img = nat \<lfloor>rwidth ?r\<rfloor>" "height img = nat \<lfloor>rheight ?r\<rfloor>"
    and eq: "handleApplyCrop P ?s
               = (None, ?s\<lparr>originalImage :=
                             Some (repaint (croppedOriginalPixel P (plain 200 100 90) ?r)
                                     (blank (width img) (height img))),
                           canvas := Some (onCanvas P img),
                           history := slice0 (history ?s) (historyIndex ?s + 1) @ [onCanvas P img],
                           historyIndex := int (length (slice0 (history ?s) (historyIndex ?s + 1))),
                           cropRect := None, editMode := Erase\<rparr>)"
    using handleApplyCrop_applied[OF c cropDragged_state(2,3), of P]
    by (auto simp: rect_def)
  from dims have d: "width img = 160" "height img = 80" by (simp_all add: rect_def)
  show "fst (handleApplyCrop P (cropDragged P)) = None"
    "editMode (snd (handleApplyCrop P (cropDragged P))) = Erase"
    "cropRect (snd (handleApplyCrop P (cropDragged P))) = None"
    "length (history (snd (handleApplyCrop P (cropDragged P)))) = 2"
    "butlast (history (snd (handleApplyCrop P (cropDragged P)))) = [plain 200 100 90]"
    "historyIndex (snd (handleApplyCrop P (cropDragged P))) = 1"
    "map_option width (canvas (snd (handleApplyCrop P (cropDragged P)))) = Some 160"
    "map_option height (canvas (snd (handleApplyCrop P (cropDragged P)))) = Some 80"
    "width (last (history (snd (handleApplyCrop P (cropDragged P))))) = 160"
    "height (last (history (snd (handleApplyCrop P (cropDragged P))))) = 80"
    unfolding eq by (simp_all add: cropDragged_state slice0_def onCanvas_shape d)
qed

subsection \<open>Apply on an empty or overhanging rectangle\<close>

text \<open>
  C1 (amended).  Apply changes nothing (no history push, the mode, the rectangle, the
  canvas and the original image as they were) in three cases: the canvas, the rectangle
  or the original image is missing, where the handler returns at its guard; the rectangle
  has width 0 or height 0, where \<open>getImageData\<close> raises \<open>IndexSizeError\<close> (or \<open>TypeError\<close>)
  before the handler has touched anything; one of the rectangle's four numbers is
  \<open>2^31\<close> or more, or \<open>-2^31 - 1\<close> or less, where \<open>getImageData\<close> raises \<open>TypeError\<close>.
  With the canvas and the original image there, width and height at least 1 and all four
  numbers below \<open>2^31\<close> in absolute value, the rectangle is applied wherever it lies, also
  when it reaches beyond the canvas: the canvas takes the size of the rectangle and holds
  the region \<open>getImageData\<close> extracted, every pixel through the bitmap's store; that canvas
  is pushed on the history after the entries up to the cursor, the rectangle is cleared
  and the mode becomes Erase.
\<close>

theorem apply_crop_zero_area_rejected:
  "(canvas s = None \<or> cropRect s = None \<or> originalImage s = None
      \<longrightarrow> handleApplyCrop P s = (None, s))
   \<and> (cropRect s = Some r \<and> (rwidth r = 0 \<or> rheight r = 0)
      \<longrightarrow> snd (handleApplyCrop P s) = s
          \<and> (canvas s \<noteq> None \<and> originalImage s \<noteq> None
              \<longrightarrow> fst (handleApplyCrop P s) = Some IndexSizeError
                  \<or> fst (handleApplyCrop P s) = Some TypeError))
   \<and> (canvas s \<noteq> None \<and> cropRect s = Some r \<and> originalImage s \<noteq> None
        \<and> (2147483648 \<le> rx r \<or> rx r \<le> - 2147483649
            \<or> 2147483648 \<le> ry r \<or> ry r \<le> - 2147483649
            \<or> 2147483648 \<le> rwidth r \<or> rwidth r \<le> - 2147483649
            \<or> 2147483648 \<le> rheight r \<or> rheight r \<le> - 2147483649)
      \<longrightarrow> handleApplyCrop P s = (Some TypeError, s))
   \<and> (canvas s = Some c \<and> cropRect s = Some r \<and> originalImage s \<noteq> None
        \<and> 1 \<le> rwidth r \<and> rwidth r < 2147483648 \<and> 1 \<le> rheight r \<and> rheight r < 2147483648
        \<and> \<bar>rx r\<bar> < 2147483648 \<and> \<bar>ry r\<bar> < 2147483648
      \<longrightarrow> fst (handleApplyCrop P s) = None
          \<and> editMode (snd (handleApplyCrop P s)) = Erase
          \<and> cropRect (snd (handleApplyCrop P s)) = None
          \<and> butlast (history (snd (handleApplyCrop P s)))
              = slice0 (history s) (historyIndex s + 1)
          \<and> historyIndex (snd (handleApplyCrop P s))
              = int (length (history (snd (handleApplyCrop P s)))) - 1
          \<and> map_sum id (onCanvas P) (getImageData_js c (rx r) (ry r) (rwidth r) (rheight r))
              = Inr (last (history (snd (handleApplyCrop P s))))
          \<and> width (last (history (snd (handleApplyCrop P s)))) = nat \<lfloor>rwidth r\<rfloor>
          \<and> height (last (history (snd (handleApplyCrop P s)))) = nat \<lfloor>rheight r\<rfloor>
          \<and> canvas (snd (handleApplyCrop P s))
              = Some (last (history (snd (handleApplyCrop P s)))))"
proof (intro conjI impI)
  assume "canvas s = None \<or> cropRect s = None \<or> originalImage s = None"
  then show "handleApplyCrop P s = (None, s)" by (rule handleApplyCrop_guard)
next
  assume a: "cropRect s = Some r \<and> (rwidth r = 0 \<or> rheight r = 0)"
  then show "snd (handleApplyCrop P s) = s"
    by (simp add: handleApplyCrop_zero_area)
  assume "canvas s \<noteq> None \<and> originalImage s \<noteq> None"
  with a show "fst (handleApplyCrop P s) = Some IndexSizeError
                  \<or> fst (handleApplyCrop P s) = Some TypeError"
    using handleApplyCrop_zero_area(2)[of s r P] by blast
next
  assume "canvas s \<noteq> None \<and> cropRect s = Some r \<and> originalImage s \<noteq> None
        \<and> (2147483648 \<le> rx r \<or> rx r \<le> - 2147483649
            \<or> 2147483648 \<le> ry r \<or> ry r \<le> - 2147483649
            \<or> 2147483648 \<le> rwidth r \<or> rwidth r \<le> - 2147483649
            \<or> 2147483648 \<le> rheight r \<or> rheight r \<le> - 2147483649)"
  then show "handleApplyCrop P s = (Some TypeError, s)"
    using handleApplyCrop_out_of_range[of s r P] by blast
next
  assume a: "canvas s = Some c \<and> cropRect s = Some r \<and> originalImage s \<noteq> None
        \<and> 1 \<le> rwidth r \<and> rwidth r < 2147483648 \<and> 1 \<le> rheight r \<and> rheight r < 2147483648
        \<and> \<bar>rx r\<bar> < 2147483648 \<and> \<bar>ry r\<bar> < 2147483648"
  then obtain orig where o: "originalImage s = Some orig" by auto
  from a o obtain img where
    js: "getImageData_js c (rx r) (ry r) (rwidth r) (rheight r) = Inr img"
    and dims: "width img = nat \<lfloor>rwidth r\<rfloor>" "height img = nat \<lfloor>rheight r\<rfloor>"
    and eq: "handleApplyCrop P s
               = (None, s\<lparr>originalImage :=
                             Some (repaint (croppedOriginalPixel P orig r)
                                     (blank (width img) (height img))),
                           canvas := Some (onCanvas P img),
                           history := slice0 (history s) (historyIndex s + 1) @ [onCanvas P img],
                           historyIndex := int (length (slice0 (history s) (historyIndex s + 1))),
                           cropRect := None, editMode := Erase\<rparr>)"
    using handleApplyCrop_applied[of s c r orig P] by auto
  show "fst (handleApplyCrop P s) = None"
    and "editMode (snd (handleApplyCrop P s)) = Erase"
    and "cropRect (snd (handleApplyCrop P s)) = None"
    and "butlast (history (snd (handleApplyCrop P s)))
              = slice0 (history s) (historyIndex s + 1)"
    and "historyIndex (snd (handleApplyCrop P s))
              = int (length (history (snd (handleApplyCrop P s)))) - 1"
    and "map_sum id (onCanvas P) (getImageData_js c (rx r) (ry r) (rwidth r) (rheight r))
              = Inr (last (history (snd (handleApplyCrop P s))))"
    and "width (last (history (snd (handleApplyCrop P s)))) = nat \<lfloor>rwidth r\<rfloor>"
    and "height (last (history (snd (handleApplyCrop P s)))) = nat \<lfloor>rheight r\<rfloor>"
    and "canvas (snd (handleApplyCrop P s))
              = Some (last (history (snd (handleApplyCrop P s))))"
    unfolding eq by (simp_all add: js dims onCanvas_shape)
qed

theorem apply_crop_zero_area_rejected_witness:
  "handleApplyCrop halfPlatform ((cropping (rect 0 0 1 1) tile)\<lparr>originalImage := None\<rparr>)
     = (None, (cropping (rect 0 0 1 1) tile)\<lparr>originalImage := None\<rparr>)
   \<and> handleApplyCrop halfPlatform (cropping (rect 0 0 0 0) tile)
     = (Some IndexSizeError, cropping (rect 0 0 0 0) tile)
   \<and> handleApplyCrop halfPlatform (cropping (rect 2147483648 0 1 1) tile)
     = (Some TypeError, cropping (rect 2147483648 0 1 1) tile)
   \<and> fst (handleApplyCrop halfPlatform (cropDragged halfPlatform)) = None
   \<and> editMode (snd (handleApplyCrop halfPlatform (cropDragged halfPlatform))) = Erase
   \<and> cropRect (snd (handleApplyCrop halfPlatform (cropDragged halfPlatform))) = None
   \<and> butlast (history (snd (handleApplyCrop halfPlatform (cropDragged halfPlatform))))
       = [plain 200 100 90]
   \<and> historyIndex (snd (handleApplyCrop halfPlatform (cropDragged halfPlatform))) = 1
   \<and> width (last (history (snd (handleApplyCrop halfPlatform (cropDragged halfPlatform))))) = 160
   \<and> height (last (history (snd (handleApplyCrop halfPlatform (cropDragged halfPlatform))))) = 80
   \<and> canvas (snd (handleApplyCrop halfPlatform (cropDragged halfPlatform)))
       = Some (last (history (snd (handleApplyCrop halfPlatform (cropDragged halfPlatform)))))"
proof -
  let ?d = "cropDragged halfPlatform"
  have "getImageData_js tile 0 0 0 0 = Inl IndexSizeError"
    by (simp add: getImageData_js_def getImageData_def to_long_zero)
  then have z: "fst (handleApplyCrop halfPlatform (cropping (rect 0 0 0 0) tile))
               = Some IndexSizeError"
    by (simp add: handleApplyCrop_def cropping_def loaded_def rect_def)
  have g: "handleApplyCrop halfPlatform ((cropping (rect 0 0 1 1) tile)\<lparr>originalImage := None\<rparr>)
             = (None, (cropping (rect 0 0 1 1) tile)\<lparr>originalImage := None\<rparr>)"
    using apply_crop_zero_area_rejected
            [of "(cropping (rect 0 0 1 1) tile)\<lparr>originalImage := None\<rparr>" halfPlatform
                "rect 0 0 1 1" tile]
    by simp
  have e: "handleApplyCrop halfPlatform (cropping (rect 0 0 0 0) tile)
             = (Some IndexSizeError, cropping (rect 0 0 0 0) tile)"
    using z apply_crop_zero_area_rejected
            [of "cropping (rect 0 0 0 0) tile" halfPlatform "rect 0 0 0 0" tile]
    by (simp add: cropping_def loaded_def rect_def prod_eq_iff)
  have t: "handleApplyCrop halfPlatform (cropping (rect 2147483648 0 1 1) tile)
             = (Some TypeError, cropping (rect 2147483648 0 1 1) tile)"
    using apply_crop_zero_area_rejected
            [of "cropping (rect 2147483648 0 1 1) tile" halfPlatform
                "rect 2147483648 0 1 1" tile]
    by (simp add: cropping_def loaded_def rect_def)
  from cropDragged_state(6)[of halfPlatform]
  have c: "canvas ?d = Some (the (canvas ?d))" by auto
  have a: "fst (handleApplyCrop halfPlatform ?d) = None
     \<and> editMode (snd (handleApplyCrop halfPlatform ?d)) = Erase
     \<and> cropRect (snd (handleApplyCrop halfPlatform ?d)) = None
     \<and> butlast (history (snd (handleApplyCrop halfPlatform ?d))) = [plain 200 100 90]
     \<and> historyIndex (snd (handleApplyCrop halfPlatform ?d)) = 1
     \<and> width (last (history (snd (handleApplyCrop halfPlatform ?d)))) = 160
     \<and> height (last (history (snd (handleApplyCrop halfPlatform ?d)))) = 80
     \<and> canvas (snd (handleApplyCrop halfPlatform ?d))
         = Some (last (history (snd (handleApplyCrop halfPlatform ?d))))"
    using c apply_crop_zero_area_rejected
            [of ?d halfPlatform "rect 70 10 160 80" "the (canvas ?d)"]
          handleApplyCrop_cropDragged(4)[of halfPlatform]
    by (simp add: cropDragged_state rect_def slice0_def)
  from g e t a show ?thesis by blast
qed

theorem apply_crop_out_of_bounds_counterexample:
  "\<forall>P. editMode (cropDragged P) = Crop
     \<and> cropRect (cropDragged P) = Some (rect 70 10 160 80)
     \<and> map_option width (canvas (cropDragged P)) = Some 200
     \<and> map_option height (canvas (cropDragged P)) = Some 100
     \<and> map_option (\<lambda>c. real (width c) < rx (rect 70 10 160 80) + rwidth (rect 70 10 160 80))
         (canvas (cropDragged P)) = Some True
     \<and> history (cropDragged P) = [plain 200 100 90]
     \<and> historyIndex (cropDragged P) = 0
     \<and> fst (handleApplyCrop P (cropDragged P)) = None
     \<and> length (history (snd (handleApplyCrop P (cropDragged P)))) = 2
     \<and> butlast (history (snd (handleApplyCrop P (cropDragged P)))) = [plain 200 100 90]
     \<and> historyIndex (snd (handleApplyCrop P (cropDragged P))) = 1
     \<and> editMode (snd (handleApplyCrop P (cropDragged P))) = Erase
     \<and> cropRect (snd (handleApplyCrop P (cropDragged P))) = None
     \<and> map_option width (canvas (snd (handleApplyCrop P (cropDragged P)))) = Some 160
     \<and> map_option height (canvas (snd (handleApplyCrop P (cropDragged P)))) = Some 80"
proof
  fix P
  from cropDragged_state(6)[of P] obtain c where c: "canvas (cropDragged P) = Some c"
    and w: "width c = 200" by auto
  have "map_option (\<lambda>c. real (width c) < rx (rect 70 10 160 80) + rwidth (rect 70 10 160 80))
         (canvas (cropDragged P)) = Some True"
    by (simp add: c w rect_def)
  then show "editMode (cropDragged P) = Crop
     \<and> cropRect (cropDragged P) = Some (rect 70 10 160 80)
     \<and> map_option width (canvas (cropDragged P)) = Some 200
     \<and> map_option height (canvas (cropDragged P)) = Some 100
     \<and> map_option (\<lambda>c. real (width c) < rx (rect 70 10 160 80) + rwidth (rect 70 10 160 80))
         (canvas (cropDragged P)) = Some True
     \<and> history (cropDragged P) = [plain 200 100 90]
     \<and> historyIndex (cropDragged P) = 0
     \<and> fst (handleApplyCrop P (cropDragged P)) = None
     \<and> length (history (snd (handleApplyCrop P (cropDragged P)))) = 2
     \<and> butlast (history (snd (handleApplyCrop P (cropDragged P)))) = [plain 200 100 90]
     \<and> historyIndex (snd (handleApplyCrop P (cropDragged P))) = 1
     \<and> editMode (snd (handleApplyCrop P (cropDragged P))) = Erase
     \<and> cropRect (snd (handleApplyCrop P (cropDragged P))) = None
     \<and> map_option width (canvas (snd (handleApplyCrop P (cropDragged P)))) = Some 160
     \<and> map_option height (canvas (snd (handleApplyCrop P (cropDragged P)))) = Some 80"
    using cropDragged_state[of P] handleApplyCrop_cropDragged[of P] by simp
qed

end
